theory Spec2Isabelle
  imports Complex_Main
begin

section \<open>JavaScript values, requests and responses\<close>

text \<open>
  The backend is a set of Express route handlers over three collaborators: an in-process
  OTP map, the identity provider and the document store. A handler is modelled as a
  function from the request, the readings of the environment it takes (clock, random
  number, outcome of each collaborator call) and the state it touches, to the response
  and the new state. Strings are lists of code units below 256.
\<close>

datatype jsval = JUndefined | JNull | JStr string | JNum int | JBool bool

record response =
  status :: nat
  body :: "(string \<times> jsval) list"

definition res_json :: "(string \<times> jsval) list \<Rightarrow> response" where
  \<comment> \<open>\<open>res.json(b)\<close>: status 200.\<close>
  "res_json b = \<lparr>status = 200, body = b\<rparr>"

definition res_status_json :: "nat \<Rightarrow> (string \<times> jsval) list \<Rightarrow> response" where
  \<comment> \<open>\<open>res.status(n).json(b)\<close>.\<close>
  "res_status_json n b = \<lparr>status = n, body = b\<rparr>"

definition message :: "string \<Rightarrow> (string \<times> jsval) list" where
  "message m = [(''message'', JStr m)]"

fun falsy :: "string option \<Rightarrow> bool" where
  \<comment> \<open>\<open>!x\<close> for a request field that is a string or missing.\<close>
  "falsy None = True"
| "falsy (Some s) = (s = [])"

fun or_else :: "string option \<Rightarrow> string option \<Rightarrow> string option" where
  \<comment> \<open>\<open>a || b\<close> on strings that may be missing.\<close>
  "or_else (Some s) b = (if s = [] then b else Some s)"
| "or_else None b = b"

text \<open>The decoded identity token that \<open>verifyToken\<close> binds to \<open>req.user\<close>.\<close>

record user =
  uid :: string
  userName :: "string option"
  email :: "string option"
  picture :: "string option"

section \<open>routes/auth.js: the OTP issuer\<close>

record otp_data =
  otp :: string
  expiresAt :: int
  attempts :: nat

type_synonym otp_storage = "string \<rightharpoonup> otp_data"

definition digit_char :: "nat \<Rightarrow> char" where
  "digit_char d = ''0123456789'' ! d"

function digits :: "nat \<Rightarrow> string" where
  "digits n = (if n < 10 then [digit_char n] else digits (n div 10) @ [digit_char (n mod 10)])"
  by pat_completeness auto
termination
  by (relation "measure id") auto

declare digits.simps [simp del]

definition toString :: "int \<Rightarrow> string" where
  \<comment> \<open>\<open>Number.prototype.toString\<close> on an integer below \<open>1e21\<close>.\<close>
  "toString i = (if i < 0 then CHR ''-'' # digits (nat (- i)) else digits (nat i))"

text \<open>
  JavaScript numbers are IEEE 754 doubles, so the product and the sum in \<open>generateOTP\<close>
  are each rounded to the nearest double, ties to the even significand. A double is an
  integer multiple of the unit in the last place of its binade, a power of two 52
  places below its binary exponent (and \<open>2 powi (- 1074)\<close> below the normal range).
  Overflow is not modelled: all magnitudes here are below \<open>2 ^ 20\<close>.
\<close>

definition round_half_even :: "real \<Rightarrow> int" where
  \<comment> \<open>The nearest integer, a tie going to the even one.\<close>
  "round_half_even y =
     (let f = \<lfloor>y\<rfloor>; d = y - of_int f in
      if d < 1 / 2 then f else if 1 / 2 < d then f + 1 else if even f then f else f + 1)"

definition ulp_exponent :: "real \<Rightarrow> int" where
  \<comment> \<open>The exponent of the unit in the last place at \<open>x\<close>.\<close>
  "ulp_exponent x = max \<lfloor>log 2 \<bar>x\<bar>\<rfloor> (- 1022) - 52"

definition round_to_double :: "real \<Rightarrow> real" where
  \<comment> \<open>The double nearest to \<open>x\<close>, ties to even.\<close>
  "round_to_double x =
     (if x = 0 then 0
      else of_int (round_half_even (x / 2 powi ulp_exponent x)) * 2 powi ulp_exponent x)"

definition is_double :: "real \<Rightarrow> bool" where
  \<comment> \<open>\<open>x\<close> is the value of a double.\<close>
  "is_double x = (round_to_double x = x)"

definition otp_number :: "real \<Rightarrow> int" where
  \<comment> \<open>\<open>Math.floor(100000 + Math.random() * 900000)\<close> in double arithmetic; the argument
      is the value of \<open>Math.random()\<close>, a double in \<open>[0, 1)\<close>. The constants are doubles
      and \<open>Math.floor\<close> is exact.\<close>
  "otp_number rnd = \<lfloor>round_to_double (100000 + round_to_double (rnd * 900000))\<rfloor>"

definition generateOTP :: "real \<Rightarrow> string" where
  "generateOTP rnd = toString (otp_number rnd)"

definition is_space :: "char \<Rightarrow> bool" where
  \<comment> \<open>\<open>\s\<close> on code units below 256.\<close>
  "is_space c =
     (c \<in> set [CHR 0x09, CHR 0x0A, CHR 0x0B, CHR 0x0C, CHR 0x0D, CHR 0x20, CHR 0xA0])"

definition plain_char :: "char \<Rightarrow> bool" where
  \<comment> \<open>The class \<open>[^\s@]\<close>.\<close>
  "plain_char c = (\<not> is_space c \<and> c \<noteq> CHR ''@'')"

definition emailRegex_test :: "string \<Rightarrow> bool" where
  \<comment> \<open>\<open>/^[^\s@]+@[^\s@]+\.[^\s@]+$/.test(s)\<close>: a non-empty run of plain characters, one
      \<open>@\<close>, then plain characters only with a dot that is neither first nor last.\<close>
  "emailRegex_test s =
     (let loc = takeWhile plain_char s; rest = dropWhile plain_char s in
      loc \<noteq> [] \<and>
      (case rest of
         [] \<Rightarrow> False
       | c # host \<Rightarrow> c = CHR ''@'' \<and> list_all plain_char host \<and>
                    CHR ''.'' \<in> set (butlast (tl host))))"

definition send_otp ::
  "int \<Rightarrow> real \<Rightarrow> bool \<Rightarrow> string option \<Rightarrow> otp_storage \<Rightarrow> response \<times> otp_storage" where
  \<comment> \<open>\<open>now\<close> is \<open>Date.now()\<close> in milliseconds, \<open>rnd\<close> is \<open>Math.random()\<close>, \<open>mail_ok\<close>
      tells whether \<open>transporter.sendMail\<close> resolves.\<close>
  "send_otp now rnd mail_ok em otpStorage =
     (case em of
        None \<Rightarrow> (res_status_json 400 (message ''Please use a valid email address''), otpStorage)
      | Some e \<Rightarrow>
          if e = [] \<or> \<not> emailRegex_test e
          then (res_status_json 400 (message ''Please use a valid email address''), otpStorage)
          else
            let code = generateOTP rnd;
                expires = now + 5 * 60 * 1000;
                otpStorage' = otpStorage(e \<mapsto> \<lparr>otp = code, expiresAt = expires, attempts = 0\<rparr>)
            in if mail_ok
               then (res_json [(''message'', JStr ''OTP sent successfully''),
                               (''expiresIn'', JNum 300)], otpStorage')
               else (res_status_json 500 (message ''Failed to send OTP. Please try again.''),
                     otpStorage'))"

text \<open>
  The identity provider: each call returns \<open>None\<close> when it throws.
\<close>

record auth_provider =
  getUserByEmail :: "string \<Rightarrow> string option"
  createUser :: "string \<Rightarrow> string option"
  createCustomToken :: "string \<Rightarrow> string \<Rightarrow> string option"

definition get_or_create_user :: "auth_provider \<Rightarrow> string \<Rightarrow> string option" where
  \<comment> \<open>The inner \<open>try\<close>: \<open>getUserByEmail\<close>, and \<open>createUser\<close> when it throws.\<close>
  "get_or_create_user auth e =
     (case getUserByEmail auth e of
        Some userRecord \<Rightarrow> Some userRecord
      | None \<Rightarrow> createUser auth e)"

definition verify_otp ::
  "auth_provider \<Rightarrow> int \<Rightarrow> string option \<Rightarrow> string option \<Rightarrow> otp_storage
     \<Rightarrow> response \<times> otp_storage" where
  "verify_otp auth now em code otpStorage =
     (case (em, code) of
        (Some e, Some c) \<Rightarrow>
          if e = [] \<or> c = []
          then (res_status_json 400 (message ''Email and OTP are required''), otpStorage)
          else
            (case otpStorage e of
               None \<Rightarrow>
                 (res_status_json 400 (message ''OTP not found or expired''), otpStorage)
             | Some storedData \<Rightarrow>
                 if now > expiresAt storedData
                 then (res_status_json 400 (message ''OTP has expired''),
                       otpStorage(e := None))
                 else if attempts storedData \<ge> 3
                 then (res_status_json 400
                         (message ''Too many failed attempts. Please request a new OTP.''),
                       otpStorage(e := None))
                 else if otp storedData \<noteq> c
                 then (res_status_json 400 (message ''Invalid OTP''),
                       otpStorage(e \<mapsto> storedData\<lparr>attempts := attempts storedData + 1\<rparr>))
                 else
                   (case get_or_create_user auth e of
                      None \<Rightarrow>
                        (res_status_json 500
                           (message ''Failed to create authentication token''),
                         otpStorage)
                    | Some userRecord \<Rightarrow>
                        (case createCustomToken auth userRecord e of
                           None \<Rightarrow>
                             (res_status_json 500
                                (message ''Failed to create authentication token''),
                              otpStorage)
                         | Some customToken \<Rightarrow>
                             (res_json [(''message'', JStr ''OTP verified successfully''),
                                        (''token'', JStr customToken)],
                              otpStorage(e := None)))))
      | _ \<Rightarrow> (res_status_json 400 (message ''Email and OTP are required''), otpStorage))"

section \<open>The document store\<close>

text \<open>
  A collection is a list of documents with their ids. The handlers reach the store through
  the Admin SDK: \<open>get\<close> by id, \<open>add\<close>, \<open>update\<close> and queries. Each call may throw;
  \<open>fails = Some k\<close> says that the handler's \<open>k\<close>-th store call (from 0) throws for a reason
  of the store's own, \<open>None\<close> that none does.
\<close>

type_synonym 'd collection = "(string \<times> 'd) list"

fun update_doc :: "string \<Rightarrow> ('d \<Rightarrow> 'd) \<Rightarrow> 'd collection \<Rightarrow> 'd collection" where
  \<comment> \<open>\<open>doc(k).update(...)\<close> on a document that exists: the change is applied to the
      stored document.\<close>
  "update_doc k f [] = []"
| "update_doc k f ((k', d) # r) =
     (if k = k' then (k', f d) # r else (k', d) # update_doc k f r)"

definition js_includes :: "string list option \<Rightarrow> string \<Rightarrow> bool" where
  \<comment> \<open>\<open>arr?.includes(x) || false\<close>.\<close>
  "js_includes arr x = (case arr of None \<Rightarrow> False | Some xs \<Rightarrow> x \<in> set xs)"

definition arrayUnion :: "string \<Rightarrow> string list option \<Rightarrow> string list option" where
  \<comment> \<open>\<open>FieldValue.arrayUnion(x)\<close>: adds \<open>x\<close> unless present; a missing field becomes
      \<open>[x]\<close>.\<close>
  "arrayUnion x arr =
     (case arr of
        None \<Rightarrow> Some [x]
      | Some xs \<Rightarrow> Some (if x \<in> set xs then xs else xs @ [x]))"

definition arrayRemove :: "string \<Rightarrow> string list option \<Rightarrow> string list option" where
  \<comment> \<open>\<open>FieldValue.arrayRemove(x)\<close>: removes every occurrence of \<open>x\<close>; a missing field
      becomes \<open>[]\<close>.\<close>
  "arrayRemove x arr =
     (case arr of
        None \<Rightarrow> Some []
      | Some xs \<Rightarrow> Some (removeAll x xs))"

fun insert_sorted :: "('a \<Rightarrow> 'a \<Rightarrow> int) \<Rightarrow> 'a \<Rightarrow> 'a list \<Rightarrow> 'a list" where
  "insert_sorted cmp x [] = [x]"
| "insert_sorted cmp x (y # ys) =
     (if cmp x y \<le> 0 then x # y # ys else y # insert_sorted cmp x ys)"

definition js_sort :: "('a \<Rightarrow> 'a \<Rightarrow> int) \<Rightarrow> 'a list \<Rightarrow> 'a list" where
  \<comment> \<open>\<open>Array.prototype.sort(cmp)\<close>, a stable sort: \<open>a\<close> stays before \<open>b\<close> when
      \<open>cmp(a, b) \<le> 0\<close>.\<close>
  "js_sort cmp xs = foldr (insert_sorted cmp) xs []"

fun time_diff :: "int option \<Rightarrow> int option \<Rightarrow> int" where
  \<comment> \<open>The difference of two dates; with a missing operand it is \<open>NaN\<close>, which a sort
      takes as \<open>0\<close>.\<close>
  "time_diff (Some a) (Some b) = a - b"
| "time_diff _ _ = 0"

record post =
  postText :: "string option"
  images :: "string list"
  author :: string
  authorName :: string
  authorPhoto :: "string option"
  timestamp :: "int option"
  likes :: "string list option"
  comments :: int

record community =
  name :: string
  description :: string
  category :: string
  followers :: "string list option"
  admin :: string
  adminName :: string
  createdAt :: int
  postCount :: int
  updatedAt :: "int option"
  posts :: "post collection"

record group =
  groupName :: string
  groupDescription :: string
  isPrivate :: bool
  members :: "string list option"
  groupAdmin :: string
  groupCreatedAt :: int
  groupUpdatedAt :: int

definition follower_set :: "community \<Rightarrow> string set" where
  "follower_set c = (case followers c of None \<Rightarrow> {} | Some xs \<Rightarrow> set xs)"

definition query_posts :: "post collection \<Rightarrow> int option \<Rightarrow> nat \<Rightarrow> post collection" where
  \<comment> \<open>\<open>.orderBy('timestamp', 'desc')\<close>, with \<open>.where('timestamp', '>=', since)\<close> when
      \<open>since\<close> is given, then \<open>.limit(limit)\<close>; a document with no timestamp is in neither.\<close>
  "query_posts ps since limit =
     take limit
       (js_sort (\<lambda>a b. time_diff (timestamp (snd b)) (timestamp (snd a)))
          (filter (\<lambda>d. case timestamp (snd d) of
                          None \<Rightarrow> False
                        | Some t \<Rightarrow> (case since of None \<Rightarrow> True | Some s \<Rightarrow> s \<le> t)) ps))"

section \<open>routes/posts.js: the feed\<close>

record feed_item =
  item_id :: string
  communityId :: string
  communityName :: "string option"
  item_post :: post
  isLiked :: bool

definition like_count :: "feed_item \<Rightarrow> nat" where
  \<comment> \<open>\<open>a.likes?.length || 0\<close>.\<close>
  "like_count a = (case likes (item_post a) of None \<Rightarrow> 0 | Some l \<Rightarrow> length l)"

definition item_time :: "feed_item \<Rightarrow> int option" where
  "item_time a = timestamp (item_post a)"

fun fetch_posts ::
  "string \<Rightarrow> string \<Rightarrow> nat \<Rightarrow> (nat \<Rightarrow> int) \<Rightarrow> nat option \<Rightarrow> community collection \<Rightarrow> nat
     \<Rightarrow> string list \<Rightarrow> feed_item list option" where
  \<comment> \<open>The loop over \<open>followedCommunityIds\<close>; \<open>k\<close> is the number of the store call the
      iteration makes, \<open>clock k\<close> its reading of \<open>Date.now()\<close>. \<open>None\<close>: a call threw.\<close>
  "fetch_posts u flt limit clock fails coll k [] = Some []"
| "fetch_posts u flt limit clock fails coll k (cid # rest) =
     (if fails = Some k then None
      else
        let since = (if flt = ''trending''
                     then Some (clock k - 24 * 60 * 60 * 1000) else None);
            docs = query_posts (case map_of coll cid of None \<Rightarrow> [] | Some c \<Rightarrow> posts c)
                     since limit;
            items = map (\<lambda>d. \<lparr>item_id = fst d, communityId = cid,
                                communityName = map_option name (map_of coll cid),
                                item_post = snd d,
                                isLiked = js_includes (likes (snd d)) u\<rparr>) docs
        in map_option (\<lambda>more. items @ more)
             (fetch_posts u flt limit clock fails coll (Suc k) rest))"

definition feed ::
  "user \<Rightarrow> nat \<Rightarrow> nat \<Rightarrow> string \<Rightarrow> (nat \<Rightarrow> int) \<Rightarrow> nat option \<Rightarrow> community collection
     \<Rightarrow> response + feed_item list" where
  \<comment> \<open>\<open>GET /feed\<close> with \<open>limit\<close>, \<open>offset\<close> and \<open>filter\<close> already parsed; \<open>Inr\<close> is the
      array sent with status 200.\<close>
  "feed u limit offset flt clock fails coll =
     (if fails = Some 0 then Inl (res_status_json 500 (message ''Failed to fetch feed''))
      else
        let followedCommunityIds =
              map fst (filter (\<lambda>d. js_includes (followers (snd d)) (uid u)) coll)
        in if length followedCommunityIds = 0 then Inr []
           else
             (case fetch_posts (uid u) flt limit clock fails coll 1 followedCommunityIds of
                None \<Rightarrow> Inl (res_status_json 500 (message ''Failed to fetch feed''))
              | Some allPosts \<Rightarrow>
                  let sorted =
                        (if flt = ''trending''
                         then js_sort (\<lambda>a b. int (like_count b) - int (like_count a)) allPosts
                         else js_sort (\<lambda>a b. time_diff (item_time b) (item_time a)) allPosts)
                  in Inr (take limit (drop offset sorted))))"

section \<open>routes/communities.js: follow and post\<close>

definition follow ::
  "user \<Rightarrow> string \<Rightarrow> int \<Rightarrow> nat option \<Rightarrow> community collection
     \<Rightarrow> response \<times> community collection" where
  \<comment> \<open>\<open>POST /:communityId/follow\<close>; store calls: 0 the \<open>get\<close>, 1 the \<open>update\<close>;
      \<open>now\<close> is the server timestamp.\<close>
  "follow u cid now fails coll =
     (if fails = Some 0
      then (res_status_json 500 (message ''Failed to update follow status''), coll)
      else
        (case map_of coll cid of
           None \<Rightarrow> (res_status_json 404 (message ''Community not found''), coll)
         | Some communityData \<Rightarrow>
             let isFollowing = js_includes (followers communityData) (uid u) in
             if fails = Some 1
             then (res_status_json 500 (message ''Failed to update follow status''), coll)
             else if isFollowing
             then (res_json [(''message'', JStr ''Unfollowed community''),
                             (''isFollowing'', JBool False)],
                   update_doc cid
                     (\<lambda>c. c\<lparr>followers := arrayRemove (uid u) (followers c),
                             updatedAt := Some now\<rparr>) coll)
             else (res_json [(''message'', JStr ''Following community''),
                             (''isFollowing'', JBool True)],
                   update_doc cid
                     (\<lambda>c. c\<lparr>followers := arrayUnion (uid u) (followers c),
                             updatedAt := Some now\<rparr>) coll)))"

definition author_name :: "user \<Rightarrow> string" where
  \<comment> \<open>\<open>req.user.name || req.user.email?.split('@')[0] || 'Anonymous'\<close>.\<close>
  "author_name u =
     (case or_else (userName u)
             (or_else (map_option (takeWhile (\<lambda>c. c \<noteq> CHR ''@'')) (email u))
                (Some ''Anonymous'')) of
        Some s \<Rightarrow> s
      | None \<Rightarrow> ''Anonymous'')"

definition create_post ::
  "bool \<Rightarrow> user \<Rightarrow> string \<Rightarrow> string option \<Rightarrow> string list option \<Rightarrow> int \<Rightarrow> string
     \<Rightarrow> nat option \<Rightarrow> community collection \<Rightarrow> response \<times> community collection" where
  \<comment> \<open>\<open>POST /:communityId/posts\<close> with body fields \<open>text\<close> and \<open>images\<close>; store calls:
      0 the \<open>get\<close>, 1 the \<open>add\<close>, 2 the \<open>update\<close>; \<open>newId\<close> is the id the store gives the
      new post. The store's \<open>add\<close> throws on data holding \<open>undefined\<close> (here \<open>text\<close> or
      \<open>authorPhoto\<close>) unless its setting \<open>ignoreUndefinedProperties\<close> is on, which
      leaves such fields out; the repository never turns it on.\<close>
  "create_post ignoreUndefinedProperties u cid txt imgs now newId fails coll =
     (let imageList = (case imgs of None \<Rightarrow> [] | Some l \<Rightarrow> l) in
      if falsy txt \<and> length imageList = 0
      then (res_status_json 400 (message ''Post content is required''), coll)
      else if fails = Some 0
      then (res_status_json 500 (message ''Failed to create post''), coll)
      else
        (case map_of coll cid of
           None \<Rightarrow> (res_status_json 404 (message ''Community not found''), coll)
         | Some communityData \<Rightarrow>
             if \<not> js_includes (followers communityData) (uid u)
             then (res_status_json 403 (message ''Must follow community to post''), coll)
             else if fails = Some 1 \<or>
                     (\<not> ignoreUndefinedProperties \<and> (txt = None \<or> picture u = None))
             then (res_status_json 500 (message ''Failed to create post''), coll)
             else
               let postData = \<lparr>postText = txt, images = imageList, author = uid u,
                               authorName = author_name u, authorPhoto = picture u,
                               timestamp = Some now, likes = Some [], comments = 0\<rparr>;
                   coll1 = update_doc cid (\<lambda>c. c\<lparr>posts := posts c @ [(newId, postData)]\<rparr>)
                             coll
               in if fails = Some 2
                  then (res_status_json 500 (message ''Failed to create post''), coll1)
                  else (res_json [(''id'', JStr newId),
                                  (''message'', JStr ''Post created successfully'')],
                        update_doc cid
                          (\<lambda>c. c\<lparr>postCount := postCount c + 1, updatedAt := Some now\<rparr>)
                          coll1)))"

section \<open>routes/groups.js: leave\<close>

definition leave ::
  "user \<Rightarrow> string \<Rightarrow> int \<Rightarrow> nat option \<Rightarrow> group collection
     \<Rightarrow> response \<times> group collection" where
  \<comment> \<open>\<open>POST /:groupId/leave\<close>; store calls: 0 the \<open>get\<close>, 1 the \<open>update\<close>. A group
      document with no \<open>members\<close> field makes \<open>members.includes\<close> throw.\<close>
  "leave u gid now fails groups =
     (if fails = Some 0 then (res_status_json 500 (message ''Failed to leave group''), groups)
      else
        (case map_of groups gid of
           None \<Rightarrow> (res_status_json 404 (message ''Group not found''), groups)
         | Some groupData \<Rightarrow>
             (case members groupData of
                None \<Rightarrow> (res_status_json 500 (message ''Failed to leave group''), groups)
              | Some ms \<Rightarrow>
                  if uid u \<notin> set ms
                  then (res_status_json 400 (message ''Not a member of this group''), groups)
                  else if groupAdmin groupData = uid u
                  then (res_status_json 400 (message ''Admin cannot leave the group''), groups)
                  else if fails = Some 1
                  then (res_status_json 500 (message ''Failed to leave group''), groups)
                  else (res_json (message ''Successfully left group''),
                        update_doc gid
                          (\<lambda>g. g\<lparr>members := arrayRemove (uid u) (members g),
                                  groupUpdatedAt := now\<rparr>) groups))))"

section \<open>routes/users.js: the profile\<close>

text \<open>
  A user profile is a schema-less document: a list of fields. A request body is one too;
  a field the body omits reads as \<open>undefined\<close>.
\<close>

type_synonym document = "(string \<times> jsval) list"

definition body_field :: "document \<Rightarrow> string \<Rightarrow> jsval" where
  "body_field b k = (case map_of b k of None \<Rightarrow> JUndefined | Some v \<Rightarrow> v)"

definition profile_fields :: "string list" where
  "profile_fields = [''name'', ''regNo'', ''department'', ''year'', ''photoURL'']"

definition updateData :: "document \<Rightarrow> int \<Rightarrow> document" where
  "updateData b now =
     [(''name'', body_field b ''name''),
      (''regNo'', body_field b ''regNo''),
      (''department'', body_field b ''department''),
      (''year'', body_field b ''year''),
      (''photoURL'', body_field b ''photoURL''),
      (''updatedAt'', JNum now)]"

fun set_field :: "string \<Rightarrow> jsval \<Rightarrow> document \<Rightarrow> document" where
  "set_field k v [] = [(k, v)]"
| "set_field k v ((k', w) # r) = (if k = k' then (k, v) # r else (k', w) # set_field k v r)"

fun set_fields :: "document \<Rightarrow> document \<Rightarrow> document" where
  \<comment> \<open>Writes each field of the data (first argument) into the stored document.\<close>
  "set_fields [] d = d"
| "set_fields ((k, v) # r) d = set_fields r (set_field k v d)"

definition store_update :: "bool \<Rightarrow> document \<Rightarrow> document option \<Rightarrow> document option" where
  \<comment> \<open>\<open>doc(id).update(data)\<close> on the stored document, \<open>None\<close> when the call throws: it
      throws when the document does not exist, and when the data holds \<open>undefined\<close> unless
      the setting \<open>ignoreUndefinedProperties\<close> is on, which leaves such fields out.
      Fields the data does not name keep their values.\<close>
  "store_update ignoreUndefinedProperties upd stored =
     (case stored of
        None \<Rightarrow> None
      | Some d \<Rightarrow>
          if ignoreUndefinedProperties
          then Some (set_fields (filter (\<lambda>f. snd f \<noteq> JUndefined) upd) d)
          else if list_ex (\<lambda>f. snd f = JUndefined) upd then None
          else Some (set_fields upd d))"

definition update_profile ::
  "bool \<Rightarrow> user \<Rightarrow> document \<Rightarrow> int \<Rightarrow> nat option \<Rightarrow> document collection
     \<Rightarrow> response \<times> document collection" where
  \<comment> \<open>\<open>PUT /profile\<close>; one store call, the \<open>update\<close>.\<close>
  "update_profile ignoreUndefinedProperties u b now fails users =
     (if fails = Some 0
      then (res_status_json 500 (message ''Failed to update profile''), users)
      else
        (case store_update ignoreUndefinedProperties (updateData b now)
                (map_of users (uid u)) of
           None \<Rightarrow> (res_status_json 500 (message ''Failed to update profile''), users)
         | Some d' \<Rightarrow>
             (res_json (message ''Profile updated successfully''),
              update_doc (uid u) (\<lambda>_. d') users)))"

section \<open>Predicates used in the statements\<close>

definition is_digit :: "char \<Rightarrow> bool" where
  "is_digit c = (c \<in> set ''0123456789'')"

definition within_24h :: "int \<Rightarrow> feed_item \<Rightarrow> bool" where
  \<comment> \<open>The item's post is stamped no earlier than 24 hours before \<open>t0\<close>.\<close>
  "within_24h t0 a =
     (case timestamp (item_post a) of
        None \<Rightarrow> False
      | Some t \<Rightarrow> t0 - 24 * 60 * 60 * 1000 \<le> t)"

definition more_liked :: "feed_item \<Rightarrow> feed_item \<Rightarrow> bool" where
  "more_liked a b = (like_count b \<le> like_count a)"

text \<open>Example documents for the concrete runs.\<close>

definition example_post :: "string \<Rightarrow> int \<Rightarrow> string list \<Rightarrow> post" where
  "example_post a t ls =
     \<lparr>postText = Some ''hello'', images = [], author = a, authorName = a,
      authorPhoto = Some ''photo'', timestamp = Some t, likes = Some ls, comments = 0\<rparr>"

definition example_community :: "string \<Rightarrow> string list \<Rightarrow> post collection \<Rightarrow> community" where
  "example_community a fs ps =
     \<lparr>name = ''Robotics'', description = ''Robots'', category = ''Technical'',
      followers = Some fs, admin = a, adminName = a, createdAt = 0, postCount = int (length ps),
      updatedAt = None, posts = ps\<rparr>"

definition example_user :: "string \<Rightarrow> user" where
  "example_user i = \<lparr>uid = i, userName = Some i, email = None, picture = Some ''photo''\<rparr>"

definition followers_of :: "community collection \<Rightarrow> string \<Rightarrow> string set" where
  \<comment> \<open>The follower set of the community with the given id, as stored.\<close>
  "followers_of coll cid = (case map_of coll cid of None \<Rightarrow> {} | Some c \<Rightarrow> follower_set c)"

definition has_content :: "string option \<Rightarrow> string list option \<Rightarrow> bool" where
  \<comment> \<open>A post body that passes the handler's own check: some text or some image.\<close>
  "has_content txt imgs = (\<not> falsy txt \<or> (case imgs of None \<Rightarrow> False | Some l \<Rightarrow> l \<noteq> []))"

section \<open>The OTP generator\<close>

lemma digit_char_is_digit: "d < 10 \<Longrightarrow> is_digit (digit_char d)"
proof -
  assume "d < 10"
  then have "d \<in> {0, 1, 2, 3, 4, 5, 6, 7, 8, 9}" by auto
  then show ?thesis by (auto simp: is_digit_def digit_char_def)
qed

lemma digit_char_zero: "d < 10 \<Longrightarrow> (digit_char d = CHR ''0'') = (d = 0)"
proof -
  assume "d < 10"
  then have "d \<in> {0, 1, 2, 3, 4, 5, 6, 7, 8, 9}" by auto
  then show ?thesis by (auto simp: digit_char_def)
qed

lemma digits_not_Nil: "digits n \<noteq> []"
  by (subst digits.simps) simp

lemma digits_all_digit: "list_all is_digit (digits n)"
proof (induction n rule: digits.induct)
  case (1 n)
  show ?case
  proof (cases "n < 10")
    case True
    then show ?thesis by (subst digits.simps) (simp add: digit_char_is_digit)
  next
    case False
    with 1 show ?thesis by (subst digits.simps) (simp add: digit_char_is_digit)
  qed
qed

lemma digits_hd: "0 < n \<Longrightarrow> hd (digits n) \<noteq> CHR ''0''"
proof (induction n rule: digits.induct)
  case (1 n)
  show ?case
  proof (cases "n < 10")
    case True
    with 1(2) show ?thesis by (subst digits.simps) (simp add: digit_char_zero)
  next
    case False
    then have "0 < n div 10" by simp
    with 1(1) False have "hd (digits (n div 10)) \<noteq> CHR ''0''" by simp
    with False show ?thesis by (subst digits.simps) (simp add: digits_not_Nil)
  qed
qed

lemma digits_length: "10 ^ k \<le> n \<Longrightarrow> n < 10 ^ Suc k \<Longrightarrow> length (digits n) = Suc k"
proof (induction n arbitrary: k rule: digits.induct)
  case (1 n)
  show ?case
  proof (cases "n < 10")
    case True
    have "k = 0"
    proof (cases k)
      case (Suc j)
      have "(1::nat) \<le> 10 ^ j" by simp
      with 1(2) Suc True show ?thesis by simp
    qed simp
    with True show ?thesis by (subst digits.simps) simp
  next
    case False
    with 1(3) obtain j where k: "k = Suc j" by (cases k) auto
    from 1(2) k have a: "10 ^ j \<le> n div 10" by (simp add: less_eq_div_iff_mult_less_eq)
    from 1(3) k have b: "n div 10 < 10 ^ Suc j" by (simp add: div_less_iff_less_mult)
    from 1(1)[OF False a b] False k show ?thesis by (subst digits.simps) simp
  qed
qed

text \<open>
  Rounding to a double: the nearest integer, the binade of a number, and the two facts
  the bounds rest on: rounding does not cross a number of a grid at least as coarse as
  the argument's own, and it moves a normal number by at most \<open>2 powi (- 53)\<close> of its
  magnitude.
\<close>

lemma round_half_even_of_int: "round_half_even (of_int k) = k"
  by (simp add: round_half_even_def)

lemma round_half_even_le: "y \<le> of_int K \<Longrightarrow> round_half_even y \<le> K"
proof -
  assume y: "y \<le> of_int K"
  then have f: "\<lfloor>y\<rfloor> \<le> K" by (simp add: floor_le_iff)
  show ?thesis
  proof (cases "\<lfloor>y\<rfloor> = K")
    case True
    then have "of_int K \<le> y" by (metis of_int_floor_le)
    with y have "y = of_int K" by simp
    then show ?thesis by (simp add: round_half_even_of_int)
  next
    case False
    with f have "\<lfloor>y\<rfloor> + 1 \<le> K" by simp
    then show ?thesis by (simp add: round_half_even_def Let_def)
  qed
qed

lemma round_half_even_ge: "of_int K \<le> y \<Longrightarrow> K \<le> round_half_even y"
proof -
  assume "of_int K \<le> y"
  then have "K \<le> \<lfloor>y\<rfloor>" by (simp add: le_floor_iff)
  then show ?thesis by (simp add: round_half_even_def Let_def)
qed

lemma round_half_even_lt_half: "y < of_int K + 1 / 2 \<Longrightarrow> round_half_even y \<le> K"
proof -
  assume y: "y < of_int K + 1 / 2"
  have "\<lfloor>y\<rfloor> < K + 1" unfolding floor_less_iff using y by simp
  then have f: "\<lfloor>y\<rfloor> \<le> K" by simp
  show ?thesis
  proof (cases "\<lfloor>y\<rfloor> = K")
    case True
    with y have "y - of_int \<lfloor>y\<rfloor> < 1 / 2" by simp
    with True show ?thesis by (simp add: round_half_even_def Let_def)
  next
    case False
    with f have "\<lfloor>y\<rfloor> + 1 \<le> K" by simp
    then show ?thesis by (simp add: round_half_even_def Let_def)
  qed
qed

lemma round_half_even_near: "\<bar>of_int (round_half_even y) - y\<bar> \<le> 1 / 2"
proof -
  have "of_int \<lfloor>y\<rfloor> \<le> y" and "y < of_int \<lfloor>y\<rfloor> + 1" by linarith+
  then show ?thesis by (auto simp: round_half_even_def Let_def)
qed

lemma powr2_powi: "(2::real) powr real_of_int k = 2 powi k"
  by (simp add: powr_real_of_int power_int_def power_one_over inverse_eq_divide)

lemma log2_binade:
  assumes "x \<noteq> 0"
  shows "2 powi \<lfloor>log 2 \<bar>x\<bar>\<rfloor> \<le> \<bar>x\<bar> \<and> \<bar>x\<bar> < 2 powi (\<lfloor>log 2 \<bar>x\<bar>\<rfloor> + 1)"
proof -
  have pos: "0 < \<bar>x\<bar>" using assms by simp
  have "2 powr real_of_int \<lfloor>log 2 \<bar>x\<bar>\<rfloor> \<le> \<bar>x\<bar> \<and>
        \<bar>x\<bar> < 2 powr real_of_int (\<lfloor>log 2 \<bar>x\<bar>\<rfloor> + 1)"
    using floor_log_eq_powr_iff [of "\<bar>x\<bar>" 2 "\<lfloor>log 2 \<bar>x\<bar>\<rfloor>"] pos by simp
  then show ?thesis unfolding powr2_powi .
qed

lemma floor_log2_binade:
  assumes "2 powi e \<le> \<bar>x\<bar>" and "\<bar>x\<bar> < 2 powi (e + 1)"
  shows "\<lfloor>log 2 \<bar>x\<bar>\<rfloor> = e"
proof -
  have "(0::real) < 2 powi e" by simp
  with assms(1) have pos: "0 < \<bar>x\<bar>" by linarith
  have "2 powr real_of_int e \<le> \<bar>x\<bar> \<and> \<bar>x\<bar> < 2 powr real_of_int (e + 1)"
    unfolding powr2_powi using assms by simp
  then show ?thesis
    using floor_log_eq_powr_iff [of "\<bar>x\<bar>" 2 e] pos by simp
qed


lemma ulp_exponent_binade:
  assumes "2 powi e \<le> \<bar>x\<bar>" and "\<bar>x\<bar> < 2 powi (e + 1)" and "- 1022 \<le> e"
  shows "ulp_exponent x = e - 52"
  using floor_log2_binade [OF assms(1,2)] assms(3) by (simp add: ulp_exponent_def)

lemma ulp_exponent_le:
  assumes "x \<noteq> 0" and "\<bar>x\<bar> < 2 powi (p + 53)" and "- 1074 \<le> p"
  shows "ulp_exponent x \<le> p"
proof -
  let ?e = "\<lfloor>log 2 \<bar>x\<bar>\<rfloor>"
  have "?e < p + 53"
  proof (rule ccontr)
    assume "\<not> ?e < p + 53"
    then have "(2::real) powi (p + 53) \<le> 2 powi ?e"
      by (intro power_int_increasing) simp_all
    with log2_binade [OF assms(1)] assms(2) show False by linarith
  qed
  with assms(3) show ?thesis by (simp add: ulp_exponent_def)
qed

lemma round_to_double_binade:
  assumes "2 powi e \<le> \<bar>x\<bar>" and "\<bar>x\<bar> < 2 powi (e + 1)" and "- 1022 \<le> e"
  shows "round_to_double x =
         of_int (round_half_even (x / 2 powi (e - 52))) * 2 powi (e - 52)"
proof -
  have "(0::real) < 2 powi e" by simp
  with assms(1) have "0 < \<bar>x\<bar>" by linarith
  then have "x \<noteq> 0" by simp
  then show ?thesis
    by (simp add: round_to_double_def ulp_exponent_binade [OF assms])
qed

lemma grid_coarser:
  assumes "E \<le> p"
  shows "of_int N * 2 powi p = of_int (N * 2 ^ nat (p - E)) * (2::real) powi E"
proof -
  have "(2::real) powi p = 2 powi ((p - E) + E)" by simp
  also have "\<dots> = 2 powi (p - E) * 2 powi E" by (rule power_int_add) simp
  also have "(2::real) powi (p - E) = 2 ^ nat (p - E)"
    using assms by (simp add: power_int_def)
  finally show ?thesis by simp
qed

lemma round_to_double_le:
  assumes "ulp_exponent x \<le> p" and "x \<le> of_int N * 2 powi p"
  shows "round_to_double x \<le> of_int N * 2 powi p"
proof (cases "x = 0")
  case True
  with assms(2) show ?thesis by (simp add: round_to_double_def)
next
  case False
  let ?E = "ulp_exponent x"
  let ?K = "N * 2 ^ nat (p - ?E)"
  have g: "of_int N * 2 powi p = of_int ?K * (2::real) powi ?E"
    using assms(1) by (rule grid_coarser)
  have pos: "(0::real) < 2 powi ?E" by simp
  from assms(2) have "x / 2 powi ?E \<le> of_int ?K"
    unfolding g using pos by (simp add: pos_divide_le_eq)
  then have "round_half_even (x / 2 powi ?E) \<le> ?K" by (rule round_half_even_le)
  then have "of_int (round_half_even (x / 2 powi ?E)) * 2 powi ?E \<le> of_int ?K * (2::real) powi ?E"
    using pos by (simp del: of_int_mult of_int_power)
  with False show ?thesis unfolding g by (simp add: round_to_double_def)
qed

lemma round_to_double_ge:
  assumes "ulp_exponent x \<le> p" and "of_int N * 2 powi p \<le> x"
  shows "of_int N * 2 powi p \<le> round_to_double x"
proof (cases "x = 0")
  case True
  with assms(2) show ?thesis by (simp add: round_to_double_def)
next
  case False
  let ?E = "ulp_exponent x"
  let ?K = "N * 2 ^ nat (p - ?E)"
  have g: "of_int N * 2 powi p = of_int ?K * (2::real) powi ?E"
    using assms(1) by (rule grid_coarser)
  have pos: "(0::real) < 2 powi ?E" by simp
  from assms(2) have "of_int ?K \<le> x / 2 powi ?E"
    unfolding g using pos by (simp add: pos_le_divide_eq)
  then have "?K \<le> round_half_even (x / 2 powi ?E)" by (rule round_half_even_ge)
  then have "of_int ?K * (2::real) powi ?E \<le> of_int (round_half_even (x / 2 powi ?E)) * 2 powi ?E"
    using pos by (simp del: of_int_mult of_int_power)
  with False show ?thesis unfolding g by (simp add: round_to_double_def)
qed

lemma is_double_below_1:
  assumes "is_double x" and "0 \<le> x" and "x < 1"
  shows "x \<le> 1 - 2 powi (- 53)"
proof (cases "x < 1 / 2")
  case True
  have "(2::real) powi (- 53) \<le> 2 powi (- 1)" by (intro power_int_increasing) simp_all
  with True show ?thesis by (simp add: power_int_minus)
next
  case False
  then have b: "2 powi (- 1) \<le> \<bar>x\<bar>" "\<bar>x\<bar> < 2 powi (- 1 + 1)"
    using assms by (simp_all add: power_int_minus)
  have "x = of_int (round_half_even (x / 2 powi (- 1 - 52))) * 2 powi (- 1 - 52)"
    using round_to_double_binade [OF b] assms(1) by (simp add: is_double_def)
  then obtain M :: int where x: "x = of_int M * 2 powi (- 53)" by auto
  have pos: "(0::real) < 2 powi (- 53)" by simp
  have "(1::real) = of_int (2 ^ 53) * 2 powi (- 53)"
    by (simp add: power_int_minus)
  with assms(3) x have "of_int M * (2::real) powi (- 53) < of_int (2 ^ 53) * 2 powi (- 53)"
    by simp
  then have "real_of_int M < of_int (2 ^ 53)" using pos by (simp only: mult_less_cancel_right_pos)
  then have "M \<le> 2 ^ 53 - 1" by linarith
  then have "real_of_int M \<le> of_int (2 ^ 53 - 1)" by (simp only: of_int_le_iff)
  then have "of_int M * (2::real) powi (- 53) \<le> of_int (2 ^ 53 - 1) * 2 powi (- 53)"
    using pos by (simp only: mult_le_cancel_right_pos)
  also have "\<dots> = 1 - 2 powi (- 53)" by (simp add: power_int_minus algebra_simps)
  finally show ?thesis using x by simp
qed


lemma product_bounds:
  assumes "is_double rnd" and "0 \<le> rnd" and "rnd < 1"
  shows "0 \<le> round_to_double (rnd * 900000) \<and>
         round_to_double (rnd * 900000) \<le> of_int (900000 * 2 ^ 33 - 1) * 2 powi (- 33)"
proof (cases "rnd = 0")
  case True
  then show ?thesis by (simp add: round_to_double_def power_int_minus)
next
  case False
  let ?x = "rnd * 900000"
  have x0: "?x \<noteq> 0" and xpos: "0 < ?x" using False assms(2) by simp_all
  have top: "rnd \<le> 1 - 2 powi (- 53)" using assms by (rule is_double_below_1)
  then have xle: "?x \<le> 900000 - 900000 * 2 powi (- 53)" by (simp add: algebra_simps)
  have "(0::real) < 2 powi (- 53)" by simp
  with xle have "?x < 2 ^ 20" by simp
  then have small: "\<bar>?x\<bar> < 2 powi (- 33 + 53)" using xpos by simp
  have ue: "ulp_exponent ?x \<le> - 33" by (rule ulp_exponent_le [OF x0 small]) simp
  have "of_int 0 * 2 powi (- 33) \<le> round_to_double ?x"
    by (rule round_to_double_ge [OF ue]) (use xpos in simp)
  then have lower: "0 \<le> round_to_double ?x" by simp
  have upper: "round_to_double ?x \<le> of_int (900000 * 2 ^ 33 - 1) * 2 powi (- 33)"
  proof (cases "?x \<le> of_int (900000 * 2 ^ 33 - 1) * 2 powi (- 33)")
    case True
    with ue show ?thesis by (rule round_to_double_le)
  next
    case False
    then have big: "of_int (900000 * 2 ^ 33 - 1) * 2 powi (- 33) < ?x" by simp
    have "(2::real) powi 19 \<le> of_int (900000 * 2 ^ 33 - 1) * 2 powi (- 33)"
      by (simp add: power_int_minus field_simps)
    with big xpos have b1: "2 powi 19 \<le> \<bar>?x\<bar>" by simp
    have b2: "\<bar>?x\<bar> < 2 powi (19 + 1)" using \<open>?x < 2 ^ 20\<close> xpos by simp
    have "round_to_double ?x =
        of_int (round_half_even (?x / 2 powi (19 - 52))) * 2 powi (19 - 52)"
      by (rule round_to_double_binade [OF b1 b2]) simp
    then have r: "round_to_double ?x =
        of_int (round_half_even (?x / 2 powi (- 33))) * 2 powi (- 33)"
      by simp
    have "?x / 2 powi (- 33) \<le> (900000 - 900000 * 2 powi (- 53)) * 2 ^ 33"
      using xle by (simp add: power_int_minus field_simps)
    also have "\<dots> < of_int (900000 * 2 ^ 33 - 1) + 1 / 2"
      by (simp add: power_int_minus)
    finally have "round_half_even (?x / 2 powi (- 33)) \<le> 900000 * 2 ^ 33 - 1"
      by (rule round_half_even_lt_half)
    then have "real_of_int (round_half_even (?x / 2 powi (- 33))) \<le>
        of_int (900000 * 2 ^ 33 - 1)"
      by (simp only: of_int_le_iff)
    then show ?thesis unfolding r
      by (intro mult_right_mono) simp_all
  qed
  from lower upper show ?thesis ..
qed

lemma otp_number_bounds:
  assumes "is_double rnd" and "0 \<le> rnd" and "rnd < 1"
  shows "100000 \<le> otp_number rnd \<and> otp_number rnd \<le> 999999"
proof -
  let ?y = "round_to_double (rnd * 900000)"
  let ?s = "100000 + ?y"
  from product_bounds [OF assms] have y0: "0 \<le> ?y"
    and y1: "?y \<le> of_int (900000 * 2 ^ 33 - 1) * 2 powi (- 33)" by simp_all
  have s0: "?s \<noteq> 0" and spos: "0 < ?s" using y0 by simp_all
  from y1 have s1: "?s \<le> of_int (1000000 * 2 ^ 33 - 1) * 2 powi (- 33)"
    by (simp add: power_int_minus field_simps)
  then have "?s < 2 ^ 20" by (simp add: power_int_minus field_simps)
  then have small: "\<bar>?s\<bar> < 2 powi (- 33 + 53)" using spos by simp
  have ue: "ulp_exponent ?s \<le> - 33" by (rule ulp_exponent_le [OF s0 small]) simp
  then have ue0: "ulp_exponent ?s \<le> 0" by simp
  have "of_int 100000 * 2 powi 0 \<le> round_to_double ?s"
    by (rule round_to_double_ge [OF ue0]) (use y0 in simp)
  then have lower: "100000 \<le> round_to_double ?s" by simp
  have upper: "round_to_double ?s \<le> of_int (1000000 * 2 ^ 33 - 1) * 2 powi (- 33)"
    using ue s1 by (rule round_to_double_le)
  then have "round_to_double ?s < 1000000" by (simp add: power_int_minus field_simps)
  with lower show ?thesis
    unfolding otp_number_def by (simp add: le_floor_iff floor_less_iff)
qed


text \<open>
  Concrete values are computed by \<open>round_to_double_eval\<close>, given the binary exponent.
\<close>

lemma round_to_double_eval:
  assumes "2 powi e \<le> \<bar>x\<bar>" and "\<bar>x\<bar> < 2 powi (e + 1)" and "- 1022 \<le> e"
    and "round_half_even (x / 2 powi (e - 52)) = M"
  shows "round_to_double x = of_int M * 2 powi (e - 52)"
  using round_to_double_binade [OF assms(1,2,3)] assms(4) by simp

lemma half_is_double: "is_double (1 / 2)"
  unfolding is_double_def
  by (subst round_to_double_eval [of "- 1" _ "2 ^ 52"])
     (simp_all add: power_int_minus round_half_even_def)

lemma otp_number_half: "otp_number (1 / 2) = 550000"
proof -
  have a: "round_to_double (1 / 2 * 900000) = 450000"
    by (subst round_to_double_eval [of 18 _ "450000 * 2 ^ 34"])
       (simp_all add: power_int_minus round_half_even_def)
  have b: "round_to_double (100000 + 450000) = 550000"
    by (subst round_to_double_eval [of 19 _ "550000 * 2 ^ 33"])
       (simp_all add: power_int_minus round_half_even_def)
  show ?thesis unfolding otp_number_def a b by simp
qed

lemma otp_number_0: "otp_number 0 = 100000"
proof -
  have b: "round_to_double 100000 = 100000"
    by (subst round_to_double_eval [of 16 _ "100000 * 2 ^ 36"])
       (simp_all add: power_int_minus round_half_even_def)
  have z: "round_to_double 0 = 0" by (simp add: round_to_double_def)
  show ?thesis by (simp add: otp_number_def z b)
qed

text \<open>
  Where the rounding shows: at this double the exact sum lies just below 100030 and would
  floor to 100029; rounded to a double it is 100030, and that is the code generated.
\<close>

lemma rounding_example_is_double: "is_double (300239975158 / 2 ^ 53)"
  unfolding is_double_def
  by (subst round_to_double_eval [of "- 15" _ "300239975158 * 2 ^ 14"])
     (simp_all add: power_int_minus round_half_even_def)

lemma otp_number_rounding_example:
  "otp_number (300239975158 / 2 ^ 53) = 100030 \<and>
   \<lfloor>100000 + (300239975158 / 2 ^ 53) * (900000::real)\<rfloor> = 100029"
proof -
  have a: "round_to_double (300239975158 / 2 ^ 53 * 900000) = 8444249301318750 * 2 powi (- 48)"
    by (subst round_to_double_eval [of 4 _ "8444249301318750"])
       (simp_all add: power_int_minus round_half_even_def)
  have b: "round_to_double (100000 + 8444249301318750 * 2 powi (- 48)) = 100030"
    by (subst round_to_double_eval [of 16 _ "100030 * 2 ^ 36"])
       (simp_all add: power_int_minus round_half_even_def)
  have c: "\<lfloor>100000 + (300239975158 / 2 ^ 53) * (900000::real)\<rfloor> = 100029"
    by (simp add: floor_eq_iff)
  show ?thesis unfolding otp_number_def a b using c by simp
qed


lemma normal_exponent:
  fixes x :: real
  assumes "2 powi (- 1022) \<le> \<bar>x\<bar>"
  obtains e where "2 powi e \<le> \<bar>x\<bar>" and "\<bar>x\<bar> < 2 powi (e + 1)" and "- 1022 \<le> e"
proof -
  define e where "e = \<lfloor>log 2 \<bar>x\<bar>\<rfloor>"
  have "(0::real) < 2 powi (- 1022)" by simp
  with assms have "0 < \<bar>x\<bar>" by linarith
  then have x0: "x \<noteq> 0" by simp
  from log2_binade [OF x0] have b: "2 powi e \<le> \<bar>x\<bar>" "\<bar>x\<bar> < 2 powi (e + 1)"
    unfolding e_def by simp_all
  have "- 1022 \<le> e"
  proof (rule ccontr)
    assume "\<not> - 1022 \<le> e"
    then have "e + 1 \<le> - 1022" by simp
    then have "(2::real) powi (e + 1) \<le> 2 powi (- 1022)"
      by (intro power_int_increasing) simp_all
    with b assms show False by linarith
  qed
  with b that show ?thesis by blast
qed

lemma power_int_split: "(2::real) powi (a + b) = 2 powi a * 2 powi b"
  by (rule power_int_add) simp

lemma round_to_double_error:
  assumes "2 powi (- 1022) \<le> \<bar>x\<bar>"
  shows "\<bar>round_to_double x - x\<bar> \<le> \<bar>x\<bar> * 2 powi (- 53)"
proof -
  from normal_exponent [OF assms] obtain e where
    b: "2 powi e \<le> \<bar>x\<bar>" "\<bar>x\<bar> < 2 powi (e + 1)" "- 1022 \<le> e" by blast
  define E where "E = e - 52"
  define M where "M = round_half_even (x / 2 powi E)"
  have r: "round_to_double x = of_int M * 2 powi E"
    unfolding M_def E_def by (rule round_to_double_binade [OF b])
  have pos: "(0::real) < 2 powi E" by simp
  have "\<bar>of_int M - x / 2 powi E\<bar> \<le> 1 / 2" unfolding M_def by (rule round_half_even_near)
  then have "\<bar>of_int M - x / 2 powi E\<bar> * 2 powi E \<le> 1 / 2 * 2 powi E"
    using pos by (intro mult_right_mono) simp_all
  moreover have "\<bar>of_int M - x / 2 powi E\<bar> * 2 powi E = \<bar>of_int M * 2 powi E - x\<bar>"
  proof -
    have "\<bar>of_int M - x / 2 powi E\<bar> * 2 powi E = \<bar>(of_int M - x / 2 powi E) * 2 powi E\<bar>"
      using pos by (simp add: abs_mult)
    also have "(of_int M - x / 2 powi E) * 2 powi E = of_int M * 2 powi E - x"
      using pos by (simp add: left_diff_distrib)
    finally show ?thesis .
  qed
  moreover have "1 / 2 * (2::real) powi E = 2 powi e * 2 powi (- 53)"
  proof -
    have "(2::real) powi e = 2 powi E * 2 powi 52"
      using power_int_split [of E 52] by (simp add: E_def)
    then show ?thesis by (simp add: power_int_minus)
  qed
  moreover have "2 powi e * (2::real) powi (- 53) \<le> \<bar>x\<bar> * 2 powi (- 53)"
    using b(1) by (intro mult_right_mono) simp_all
  ultimately show ?thesis unfolding r by linarith
qed

lemma round_to_double_is_double:
  assumes "2 powi (- 1022) \<le> x"
  shows "is_double (round_to_double x)"
proof -
  have "(0::real) < 2 powi (- 1022)" by simp
  with assms have xpos: "0 < x" by linarith
  then have ax: "\<bar>x\<bar> = x" by simp
  from normal_exponent [of x] assms ax obtain e where
    b: "2 powi e \<le> \<bar>x\<bar>" "\<bar>x\<bar> < 2 powi (e + 1)" "- 1022 \<le> e" by metis
  define E where "E = e - 52"
  define M where "M = round_half_even (x / 2 powi E)"
  have r: "round_to_double x = of_int M * 2 powi E"
    unfolding M_def E_def by (rule round_to_double_binade [OF b])
  have pos: "(0::real) < 2 powi E" by simp
  have split: "(2::real) powi e = 2 ^ 52 * 2 powi E"
    using power_int_split [of 52 E] by (simp add: E_def)
  have split1: "(2::real) powi (e + 1) = 2 ^ 53 * 2 powi E"
    using power_int_split [of 53 E] by (simp add: E_def add.commute)
  have "of_int (2 ^ 52) \<le> x / 2 powi E"
    using b(1) ax pos unfolding split by (simp add: pos_le_divide_eq)
  then have lo: "2 ^ 52 \<le> M" unfolding M_def by (rule round_half_even_ge)
  have "x / 2 powi E \<le> of_int (2 ^ 53)"
    using b(2) ax pos unfolding split1 by (simp add: pos_divide_le_eq)
  then have hi: "M \<le> 2 ^ 53" unfolding M_def by (rule round_half_even_le)
  show ?thesis
  proof (cases "M = 2 ^ 53")
    case True
    define e1 where "e1 = e + 1"
    define E1 where "E1 = e1 - 52"
    from True have y: "round_to_double x = 2 powi e1"
      unfolding r split1 e1_def by simp
    have "(2::real) powi (e1 + 1) = 2 powi e1 * 2 powi 1" by (rule power_int_split)
    then have b': "2 powi e1 \<le> \<bar>(2::real) powi e1\<bar>"
      "\<bar>(2::real) powi e1\<bar> < 2 powi (e1 + 1)" "- 1022 \<le> e1"
      using b(3) by (simp_all add: e1_def)
    have up: "(2::real) powi e1 = of_int (2 ^ 52) * 2 powi E1"
      using power_int_split [of 52 E1] by (simp add: E1_def)
    then have "(2::real) powi e1 / 2 powi E1 = of_int (2 ^ 52)" by simp
    then have "round_half_even (2 powi e1 / 2 powi E1) = 2 ^ 52"
      by (simp only: round_half_even_of_int)
    with round_to_double_binade [OF b']
    have "round_to_double (2 powi e1) = of_int (2 ^ 52) * 2 powi E1"
      unfolding E1_def by simp
    also have "\<dots> = 2 powi e1" using up by simp
    finally show ?thesis unfolding is_double_def y .
  next
    case False
    with hi have lt: "M < 2 ^ 53" by simp
    define y where "y = of_int M * (2::real) powi E"
    have "(0::real) < of_int M" using lo by simp
    then have ypos: "0 < y" unfolding y_def using pos by (rule mult_pos_pos)
    have "real_of_int (2 ^ 52) \<le> of_int M" using lo by (simp only: of_int_le_iff)
    then have "of_int (2 ^ 52) * (2::real) powi E \<le> y"
      unfolding y_def using pos by (intro mult_right_mono) simp_all
    then have b1: "2 powi e \<le> \<bar>y\<bar>" using ypos unfolding split by simp
    have "real_of_int M < of_int (2 ^ 53)" using lt by (simp only: of_int_less_iff)
    then have "y < of_int (2 ^ 53) * (2::real) powi E"
      unfolding y_def using pos by (intro mult_strict_right_mono) simp_all
    then have b2: "\<bar>y\<bar> < 2 powi (e + 1)" using ypos unfolding split1 by simp
    have "round_to_double y = of_int (round_half_even (y / 2 powi (e - 52))) * 2 powi (e - 52)"
      by (rule round_to_double_binade [OF b1 b2 b(3)])
    moreover have "y / 2 powi (e - 52) = of_int M" unfolding y_def E_def using pos by simp
    ultimately have "round_to_double y = y"
      unfolding y_def E_def by (simp only: round_half_even_of_int)
    then show ?thesis unfolding is_double_def r y_def .
  qed
qed


lemma round_to_double_close:
  assumes "lo \<le> x" and "x \<le> hi" and "2 powi (- 1022) \<le> lo"
  shows "x - hi * 2 powi (- 53) \<le> round_to_double x \<and>
         round_to_double x \<le> x + hi * 2 powi (- 53)"
proof -
  have "(0::real) < 2 powi (- 1022)" by simp
  with assms have xpos: "0 < x" by linarith
  then have "2 powi (- 1022) \<le> \<bar>x\<bar>" using assms by simp
  then have "\<bar>round_to_double x - x\<bar> \<le> \<bar>x\<bar> * 2 powi (- 53)"
    by (rule round_to_double_error)
  also have "\<dots> \<le> hi * 2 powi (- 53)"
    using xpos assms(2) by (intro mult_right_mono) simp_all
  finally have "\<bar>round_to_double x - x\<bar> \<le> hi * 2 powi (- 53)" .
  then show ?thesis unfolding abs_diff_le_iff .
qed

lemma otp_number_reaches:
  assumes "100000 \<le> n" and "n \<le> 999999"
  shows "\<exists>r. is_double r \<and> 0 \<le> r \<and> r < 1 \<and> otp_number r = n"
proof -
  define k where "k = real_of_int (n - 100000)"
  define q where "q = (k + 1 / 2) / 900000"
  define eps where "eps = (2::real) powi (- 53)"
  define r where "r = round_to_double q"
  define y where "y = round_to_double (r * 900000)"
  define z where "z = round_to_double (100000 + y)"
  have eps: "eps = 1 / 9007199254740992" by (simp add: eps_def power_int_minus)
  have tiny: "(2::real) powi (- 1022) \<le> 1 / 2097152"
  proof -
    have "(2::real) powi (- 1022) \<le> 2 powi (- 21)" by (intro power_int_increasing) simp_all
    then show ?thesis by (simp add: power_int_minus)
  qed
  have k: "0 \<le> k" "k \<le> 899999" using assms by (simp_all add: k_def)
  have n: "real_of_int n = k + 100000" by (simp add: k_def)
  have q3: "q * 900000 = k + 1 / 2" by (simp add: q_def)
  have q1: "1 / 2097152 \<le> q" and q2: "q \<le> 1799999 / 1800000"
    using k q3 by linarith+
  have "q - 1799999 / 1800000 * eps \<le> r \<and> r \<le> q + 1799999 / 1800000 * eps"
    unfolding r_def eps_def by (rule round_to_double_close [OF q1 q2 tiny])
  then have rq: "q - eps \<le> r" "r \<le> q + eps" unfolding eps by linarith+
  have "2 powi (- 1022) \<le> q" using q1 tiny by linarith
  then have dr: "is_double r" unfolding r_def by (rule round_to_double_is_double)
  have r0: "0 \<le> r" and r1: "r < 1" using rq q1 q2 unfolding eps by linarith+
  have p: "k + 1 / 2 - 900000 * eps \<le> r * 900000" "r * 900000 \<le> k + 1 / 2 + 900000 * eps"
    using rq q3 by linarith+
  have p_lo: "1 / 2097152 \<le> r * 900000" and p_hi: "r * 900000 \<le> 900000"
    using p k unfolding eps by linarith+
  have "r * 900000 - 900000 * eps \<le> y \<and> y \<le> r * 900000 + 900000 * eps"
    unfolding y_def eps_def by (rule round_to_double_close [OF p_lo p_hi tiny])
  with p have yk: "k + 1 / 2 - 1800000 * eps \<le> y" "y \<le> k + 1 / 2 + 1800000 * eps"
    by linarith+
  have s_lo: "1 / 2097152 \<le> 100000 + y" and s_hi: "100000 + y \<le> 1000000"
    using yk k unfolding eps by linarith+
  have "100000 + y - 1000000 * eps \<le> z \<and> z \<le> 100000 + y + 1000000 * eps"
    unfolding z_def eps_def by (rule round_to_double_close [OF s_lo s_hi tiny])
  with yk have "real_of_int n \<le> z" and "z < real_of_int n + 1"
    unfolding n eps by linarith+
  then have "\<lfloor>z\<rfloor> = n" by (simp add: floor_eq_iff)
  then have "otp_number r = n" by (simp add: otp_number_def z_def y_def)
  with dr r0 r1 show ?thesis by blast
qed

lemma toString_six_digits:
  assumes "100000 \<le> n" and "n \<le> 999999"
  shows "length (toString n) = 6 \<and> list_all is_digit (toString n) \<and>
         hd (toString n) \<noteq> CHR ''0''"
proof -
  have pos: "0 < nat n" using assms by simp
  have "10 ^ 5 \<le> nat n" and "nat n < 10 ^ Suc 5" using assms by simp_all
  then have "length (digits (nat n)) = Suc 5" by (rule digits_length)
  with assms pos show ?thesis
    by (simp add: toString_def digits_all_digit digits_hd)
qed

lemma generateOTP_not_Nil: "generateOTP rnd \<noteq> []"
  by (simp add: generateOTP_def toString_def digits_not_Nil)

lemma generateOTP_0: "generateOTP 0 = ''100000''"
  by (simp add: generateOTP_def otp_number_0 toString_def digits.simps digit_char_def)

lemma generateOTP_half: "generateOTP (1 / 2) = ''550000''"
  by (simp add: generateOTP_def otp_number_half toString_def digits.simps digit_char_def)

lemma generateOTP_reaches:
  assumes "100000 \<le> n" and "n \<le> 999999"
  shows "\<exists>r. is_double r \<and> 0 \<le> r \<and> r < 1 \<and> generateOTP r = toString n"
  using otp_number_reaches [OF assms] unfolding generateOTP_def by metis

text \<open>
  C3 (as amended). For every double in \<open>[0, 1)\<close> that \<open>Math.random()\<close> may return, the
  generated code is the decimal numeral of an integer from 100000 to 999999: six
  decimal digits, the first of them not \<open>0\<close>. Every integer of that range is a possible
  output: some double in \<open>[0, 1)\<close> yields it.
\<close>

theorem generateOTP_six_digits_from_100000:
  "(is_double rnd \<and> 0 \<le> rnd \<and> rnd < 1 \<longrightarrow>
      length (generateOTP rnd) = 6 \<and> list_all is_digit (generateOTP rnd) \<and>
      hd (generateOTP rnd) \<noteq> CHR ''0'' \<and>
      100000 \<le> otp_number rnd \<and> otp_number rnd \<le> 999999) \<and>
   (100000 \<le> n \<and> n \<le> 999999 \<longrightarrow>
      (\<exists>r. is_double r \<and> 0 \<le> r \<and> r < 1 \<and> generateOTP r = toString n))"
proof (intro conjI impI)
  assume r: "is_double rnd \<and> 0 \<le> rnd \<and> rnd < 1"
  then have b: "100000 \<le> otp_number rnd \<and> otp_number rnd \<le> 999999"
    by (simp add: otp_number_bounds)
  then show "100000 \<le> otp_number rnd" and "otp_number rnd \<le> 999999" by simp_all
  from b have "length (toString (otp_number rnd)) = 6 \<and>
      list_all is_digit (toString (otp_number rnd)) \<and>
      hd (toString (otp_number rnd)) \<noteq> CHR ''0''"
    by (intro toString_six_digits) simp_all
  then show "length (generateOTP rnd) = 6" and "list_all is_digit (generateOTP rnd)"
    and "hd (generateOTP rnd) \<noteq> CHR ''0''"
    by (simp_all add: generateOTP_def)
next
  assume "100000 \<le> n \<and> n \<le> 999999"
  then show "\<exists>r. is_double r \<and> 0 \<le> r \<and> r < 1 \<and> generateOTP r = toString n"
    by (simp add: generateOTP_reaches)
qed

theorem generateOTP_six_digits_from_100000_witness:
  "is_double (1 / 2) \<and> (0::real) \<le> 1 / 2 \<and> (1::real) / 2 < 1 \<and>
   length (generateOTP (1 / 2)) = 6 \<and> list_all is_digit (generateOTP (1 / 2)) \<and>
   hd (generateOTP (1 / 2)) \<noteq> CHR ''0'' \<and>
   (100000::int) \<le> 123456 \<and> (123456::int) \<le> 999999 \<and>
   (\<exists>r. is_double r \<and> 0 \<le> r \<and> r < 1 \<and> generateOTP r = toString 123456) \<and>
   generateOTP (1 / 2) = ''550000''"
  using generateOTP_six_digits_from_100000 [of "1 / 2" 123456] half_is_double
    generateOTP_half
  by simp

text \<open>
  The claim as stated fails: no double in \<open>[0, 1)\<close> yields the code \<open>000000\<close>.
\<close>

theorem generateOTP_leading_zero_counterexample:
  "\<not> (\<exists>rnd. is_double rnd \<and> 0 \<le> rnd \<and> rnd < 1 \<and> generateOTP rnd = ''000000'')"
proof
  assume "\<exists>rnd. is_double rnd \<and> 0 \<le> rnd \<and> rnd < 1 \<and> generateOTP rnd = ''000000''"
  then obtain rnd where r: "is_double rnd" "0 \<le> rnd" "rnd < 1"
    and g: "generateOTP rnd = ''000000''"
    by blast
  from r have "100000 \<le> otp_number rnd \<and> otp_number rnd \<le> 999999"
    by (rule otp_number_bounds)
  then have "hd (toString (otp_number rnd)) \<noteq> CHR ''0''"
    using toString_six_digits [of "otp_number rnd"] by simp
  with g show False by (simp add: generateOTP_def)
qed

section \<open>send-otp and verify-otp\<close>

text \<open>
  The executable test agrees with the reading of the regular expression: a string
  matches exactly when it is \<open>a@b.c\<close> with \<open>a\<close>, \<open>b\<close>, \<open>c\<close> non-empty runs of characters
  that are neither white space nor \<open>@\<close>.
\<close>

lemma plain_char_at: "\<not> plain_char CHR ''@''"
  by (simp add: plain_char_def)

lemma plain_char_dot: "plain_char CHR ''.''"
  by (simp add: plain_char_def is_space_def)

lemma emailRegex_test_complete:
  assumes "a \<noteq> []" "b \<noteq> []" "c \<noteq> []"
    and "list_all plain_char a" "list_all plain_char b" "list_all plain_char c"
  shows "emailRegex_test (a @ ''@'' @ b @ ''.'' @ c)"
proof -
  have tw: "takeWhile plain_char (a @ ''@'' @ b @ ''.'' @ c) = a"
    using assms(4) by (simp add: takeWhile_append2 list_all_iff plain_char_at)
  have dw: "dropWhile plain_char (a @ ''@'' @ b @ ''.'' @ c) = ''@'' @ b @ ''.'' @ c"
    using assms(4) by (simp add: dropWhile_append2 list_all_iff plain_char_at)
  have "butlast (tl (b @ ''.'' @ c)) = tl b @ ''.'' @ butlast c"
    using assms(2,3) by (cases b) (simp_all add: butlast_append)
  then have dot: "CHR ''.'' \<in> set (butlast (tl (b @ ''.'' @ c)))" by simp
  show ?thesis
    unfolding emailRegex_test_def Let_def tw dw
    using assms dot by (simp add: plain_char_dot)
qed

lemma emailRegex_test_sound:
  assumes "emailRegex_test s"
  shows "\<exists>a b c. s = a @ ''@'' @ b @ ''.'' @ c \<and> a \<noteq> [] \<and> b \<noteq> [] \<and> c \<noteq> [] \<and>
           list_all plain_char a \<and> list_all plain_char b \<and> list_all plain_char c"
proof -
  let ?a = "takeWhile plain_char s"
  from assms obtain host where
    a: "?a \<noteq> []" and rest: "dropWhile plain_char s = CHR ''@'' # host"
    and host: "list_all plain_char host" and dot: "CHR ''.'' \<in> set (butlast (tl host))"
    by (auto simp: emailRegex_test_def Let_def split: list.splits)
  from dot obtain p q where pq: "butlast (tl host) = p @ CHR ''.'' # q"
    by (auto simp: in_set_conv_decomp)
  then have tl_ne: "tl host \<noteq> []" by auto
  then obtain h where h: "host = h # tl host" by (cases host) auto
  from tl_ne have "tl host = butlast (tl host) @ [last (tl host)]" by simp
  with pq h have host_eq: "host = (h # p) @ ''.'' @ (q @ [last (tl host)])"
    by (metis append.assoc append_Cons append_Nil)
  have "s = ?a @ dropWhile plain_char s" by simp
  with rest host_eq have s: "s = ?a @ ''@'' @ (h # p) @ ''.'' @ (q @ [last (tl host)])"
    by simp
  have pa: "list_all plain_char ?a" by (simp add: list_all_iff) (meson set_takeWhileD)
  from host host_eq have "list_all plain_char (h # p)"
    and "list_all plain_char (q @ [last (tl host)])"
    by (metis list_all_append)+
  with s a pa show ?thesis by blast
qed

lemma emailRegex_test_iff:
  "emailRegex_test s =
     (\<exists>a b c. s = a @ ''@'' @ b @ ''.'' @ c \<and> a \<noteq> [] \<and> b \<noteq> [] \<and> c \<noteq> [] \<and>
        list_all plain_char a \<and> list_all plain_char b \<and> list_all plain_char c)"
  using emailRegex_test_sound emailRegex_test_complete by blast

lemma emailRegex_test_not_Nil: "emailRegex_test e \<Longrightarrow> e \<noteq> []"
  by (auto simp: emailRegex_test_def)

lemma emailRegex_test_example: "emailRegex_test ''x@ceg.edu''"
  by (simp add: emailRegex_test_def plain_char_def is_space_def)

lemma send_otp_valid:
  "emailRegex_test e \<Longrightarrow>
   send_otp now rnd mail_ok (Some e) store =
     (if mail_ok
      then res_json [(''message'', JStr ''OTP sent successfully''), (''expiresIn'', JNum 300)]
      else res_status_json 500 (message ''Failed to send OTP. Please try again.''),
      store(e \<mapsto> \<lparr>otp = generateOTP rnd, expiresAt = now + 300000, attempts = 0\<rparr>))"
  by (simp add: send_otp_def emailRegex_test_not_Nil Let_def)

lemma verify_otp_absent:
  "store e = None \<Longrightarrow> e \<noteq> [] \<Longrightarrow> c \<noteq> [] \<Longrightarrow>
   verify_otp auth t (Some e) (Some c) store =
     (res_status_json 400 (message ''OTP not found or expired''), store)"
  by (simp add: verify_otp_def)

lemma verify_otp_mismatch:
  "store e = Some r \<Longrightarrow> e \<noteq> [] \<Longrightarrow> c \<noteq> [] \<Longrightarrow> t \<le> expiresAt r \<Longrightarrow> attempts r < 3 \<Longrightarrow>
   c \<noteq> otp r \<Longrightarrow>
   verify_otp auth t (Some e) (Some c) store =
     (res_status_json 400 (message ''Invalid OTP''),
      store(e \<mapsto> r\<lparr>attempts := attempts r + 1\<rparr>))"
  by (auto simp: verify_otp_def)

lemma verify_otp_exhausted:
  "store e = Some r \<Longrightarrow> e \<noteq> [] \<Longrightarrow> c \<noteq> [] \<Longrightarrow> t \<le> expiresAt r \<Longrightarrow> 3 \<le> attempts r \<Longrightarrow>
   verify_otp auth t (Some e) (Some c) store =
     (res_status_json 400 (message ''Too many failed attempts. Please request a new OTP.''),
      store(e := None))"
  by (simp add: verify_otp_def)

lemma verify_otp_match:
  "store e = Some r \<Longrightarrow> e \<noteq> [] \<Longrightarrow> otp r \<noteq> [] \<Longrightarrow> t \<le> expiresAt r \<Longrightarrow> attempts r < 3 \<Longrightarrow>
   get_or_create_user auth e = Some userRecord \<Longrightarrow>
   createCustomToken auth userRecord e = Some tok \<Longrightarrow>
   verify_otp auth t (Some e) (Some (otp r)) store =
     (res_json [(''message'', JStr ''OTP verified successfully''), (''token'', JStr tok)],
      store(e := None))"
  by (simp add: verify_otp_def)

text \<open>
  C1 (as amended). For every valid email, after send-otp has stored a code (whether or not
  the mail went out), a first verify-otp with that code, made no later than the expiry
  and with the identity provider answering, returns status 200 with the token and
  deletes the stored record; a second verify-otp with the same email and code then fails
  with the message \<open>OTP not found or expired\<close>, which the handler sends with status 400,
  and leaves the store as it is. The three conjuncts are the three calls in order, each
  on the store the previous one left.
\<close>

theorem send_then_verify_once:
  assumes "emailRegex_test e"
    and "t1 \<le> now + 300000"
    and "get_or_create_user auth e = Some userRecord"
    and "createCustomToken auth userRecord e = Some tok"
  shows "snd (send_otp now rnd mail_ok (Some e) store) =
           store(e \<mapsto> \<lparr>otp = generateOTP rnd, expiresAt = now + 300000, attempts = 0\<rparr>) \<and>
         verify_otp auth t1 (Some e) (Some (generateOTP rnd))
             (store(e \<mapsto> \<lparr>otp = generateOTP rnd, expiresAt = now + 300000, attempts = 0\<rparr>)) =
           (\<lparr>status = 200,
             body = [(''message'', JStr ''OTP verified successfully''), (''token'', JStr tok)]\<rparr>,
            store(e := None)) \<and>
         verify_otp auth' t2 (Some e) (Some (generateOTP rnd)) (store(e := None)) =
           (\<lparr>status = 400, body = [(''message'', JStr ''OTP not found or expired'')]\<rparr>,
            store(e := None))"
proof -
  let ?r = "\<lparr>otp = generateOTP rnd, expiresAt = now + 300000, attempts = 0\<rparr>"
  have e: "e \<noteq> []" using assms(1) by (rule emailRegex_test_not_Nil)
  have s0: "snd (send_otp now rnd mail_ok (Some e) store) = store(e \<mapsto> ?r)"
    using assms(1) by (simp add: send_otp_valid)
  have v1: "verify_otp auth t1 (Some e) (Some (generateOTP rnd)) (store(e \<mapsto> ?r)) =
      (res_json [(''message'', JStr ''OTP verified successfully''), (''token'', JStr tok)],
       store(e := None))"
    using verify_otp_match [of "store(e \<mapsto> ?r)" e ?r t1 auth userRecord tok] e assms
    by (simp add: generateOTP_not_Nil)
  have v2: "verify_otp auth' t2 (Some e) (Some (generateOTP rnd)) (store(e := None)) =
      (res_status_json 400 (message ''OTP not found or expired''), store(e := None))"
    using e by (intro verify_otp_absent) (simp_all add: generateOTP_not_Nil)
  show ?thesis
    unfolding s0 v1 v2 by (simp add: res_status_json_def res_json_def message_def)
qed

theorem send_then_verify_once_witness:
  "emailRegex_test ''x@ceg.edu'' \<and> (1000::int) \<le> 0 + 300000 \<and>
   get_or_create_user
     \<lparr>getUserByEmail = (\<lambda>e. None), createUser = (\<lambda>e. Some ''u1''),
      createCustomToken = (\<lambda>u e. Some ''t1'')\<rparr> ''x@ceg.edu'' = Some ''u1'' \<and>
   snd (send_otp 0 0 True (Some ''x@ceg.edu'') Map.empty) =
     [''x@ceg.edu'' \<mapsto> \<lparr>otp = ''100000'', expiresAt = 300000, attempts = 0\<rparr>] \<and>
   verify_otp
     \<lparr>getUserByEmail = (\<lambda>e. None), createUser = (\<lambda>e. Some ''u1''),
      createCustomToken = (\<lambda>u e. Some ''t1'')\<rparr> 1000 (Some ''x@ceg.edu'') (Some ''100000'')
     [''x@ceg.edu'' \<mapsto> \<lparr>otp = ''100000'', expiresAt = 300000, attempts = 0\<rparr>] =
     (\<lparr>status = 200,
       body = [(''message'', JStr ''OTP verified successfully''), (''token'', JStr ''t1'')]\<rparr>,
      Map.empty) \<and>
   verify_otp
     \<lparr>getUserByEmail = (\<lambda>e. None), createUser = (\<lambda>e. Some ''u1''),
      createCustomToken = (\<lambda>u e. Some ''t1'')\<rparr> 2000 (Some ''x@ceg.edu'') (Some ''100000'')
     Map.empty =
     (\<lparr>status = 400, body = [(''message'', JStr ''OTP not found or expired'')]\<rparr>,
      Map.empty)"
proof -
  let ?auth = "\<lparr>getUserByEmail = (\<lambda>e. None), createUser = (\<lambda>e. Some ''u1''),
                createCustomToken = (\<lambda>u e. Some ''t1'')\<rparr>"
  have g: "generateOTP 0 = ''100000''"
    by (rule generateOTP_0)
  have h1: "emailRegex_test ''x@ceg.edu''" by (rule emailRegex_test_example)
  have h2: "(1000::int) \<le> 0 + 300000" by simp
  have h3: "get_or_create_user ?auth ''x@ceg.edu'' = Some ''u1''"
    by (simp add: get_or_create_user_def)
  have h4: "createCustomToken ?auth ''u1'' ''x@ceg.edu'' = Some ''t1''" by simp
  note t = send_then_verify_once [OF h1 h2 h3 h4, of 0 True Map.empty ?auth 2000]
  have a: "snd (send_otp 0 0 True (Some ''x@ceg.edu'') Map.empty) =
      [''x@ceg.edu'' \<mapsto> \<lparr>otp = ''100000'', expiresAt = 300000, attempts = 0\<rparr>]"
    using t [THEN conjunct1] by (simp add: g)
  have b: "verify_otp ?auth 1000 (Some ''x@ceg.edu'') (Some ''100000'')
      [''x@ceg.edu'' \<mapsto> \<lparr>otp = ''100000'', expiresAt = 300000, attempts = 0\<rparr>] =
      (\<lparr>status = 200,
        body = [(''message'', JStr ''OTP verified successfully''), (''token'', JStr ''t1'')]\<rparr>,
       Map.empty)"
    using t [THEN conjunct2, THEN conjunct1] by (simp add: g)
  have c: "verify_otp ?auth 2000 (Some ''x@ceg.edu'') (Some ''100000'') Map.empty =
      (\<lparr>status = 400, body = [(''message'', JStr ''OTP not found or expired'')]\<rparr>,
       Map.empty)"
    using t [THEN conjunct2, THEN conjunct2] by (simp add: g)
  from h1 h2 h3 a b c show ?thesis by (intro conjI)
qed

text \<open>
  The claim as stated fails on the status: the second verify-otp answers 400, not 404.
\<close>

theorem verify_twice_status_counterexample:
  "status (fst (verify_otp
      \<lparr>getUserByEmail = (\<lambda>e. None), createUser = (\<lambda>e. Some ''u1''),
       createCustomToken = (\<lambda>u e. Some ''t1'')\<rparr> 2000 (Some ''x@ceg.edu'') (Some ''100000'')
      (snd (verify_otp
         \<lparr>getUserByEmail = (\<lambda>e. None), createUser = (\<lambda>e. Some ''u1''),
          createCustomToken = (\<lambda>u e. Some ''t1'')\<rparr> 1000 (Some ''x@ceg.edu'') (Some ''100000'')
         (snd (send_otp 0 0 True (Some ''x@ceg.edu'') Map.empty)))))) = 400 \<and>
   generateOTP 0 = ''100000''"
proof -
  have g: "generateOTP 0 = ''100000''"
    by (rule generateOTP_0)
  show ?thesis
    by (simp add: send_otp_valid emailRegex_test_example g verify_otp_def
        get_or_create_user_def res_status_json_def)
qed

text \<open>
  C2. For every OTP record with no failed attempt yet (as send-otp stores it), three
  verify-otp calls in a row with wrong codes, each before expiry, fail with
  \<open>Invalid OTP\<close>, each one storing the attempt counter increased by one and keeping the
  record; the fourth call, with the correct code, fails with the too-many-attempts
  message and deletes the record.
\<close>

theorem three_wrong_then_correct:
  assumes "store e = Some r" and "attempts r = 0" and "e \<noteq> []" and "otp r \<noteq> []"
    and "w1 \<noteq> [] \<and> w1 \<noteq> otp r" and "w2 \<noteq> [] \<and> w2 \<noteq> otp r"
    and "w3 \<noteq> [] \<and> w3 \<noteq> otp r"
    and "t1 \<le> expiresAt r" and "t2 \<le> expiresAt r" and "t3 \<le> expiresAt r"
    and "t4 \<le> expiresAt r"
  shows "verify_otp auth t1 (Some e) (Some w1) store =
           (\<lparr>status = 400, body = [(''message'', JStr ''Invalid OTP'')]\<rparr>,
            store(e \<mapsto> r\<lparr>attempts := 1\<rparr>)) \<and>
         verify_otp auth t2 (Some e) (Some w2) (store(e \<mapsto> r\<lparr>attempts := 1\<rparr>)) =
           (\<lparr>status = 400, body = [(''message'', JStr ''Invalid OTP'')]\<rparr>,
            store(e \<mapsto> r\<lparr>attempts := 2\<rparr>)) \<and>
         verify_otp auth t3 (Some e) (Some w3) (store(e \<mapsto> r\<lparr>attempts := 2\<rparr>)) =
           (\<lparr>status = 400, body = [(''message'', JStr ''Invalid OTP'')]\<rparr>,
            store(e \<mapsto> r\<lparr>attempts := 3\<rparr>)) \<and>
         verify_otp auth t4 (Some e) (Some (otp r)) (store(e \<mapsto> r\<lparr>attempts := 3\<rparr>)) =
           (\<lparr>status = 400,
             body = [(''message'',
                      JStr ''Too many failed attempts. Please request a new OTP.'')]\<rparr>,
            store(e := None))"
proof -
  have v1: "verify_otp auth t1 (Some e) (Some w1) store =
      (res_status_json 400 (message ''Invalid OTP''), store(e \<mapsto> r\<lparr>attempts := 1\<rparr>))"
    using verify_otp_mismatch [of store e r w1 t1 auth] assms by simp
  have v2: "verify_otp auth t2 (Some e) (Some w2) (store(e \<mapsto> r\<lparr>attempts := 1\<rparr>)) =
      (res_status_json 400 (message ''Invalid OTP''), store(e \<mapsto> r\<lparr>attempts := 2\<rparr>))"
    using verify_otp_mismatch
      [of "store(e \<mapsto> r\<lparr>attempts := 1\<rparr>)" e "r\<lparr>attempts := 1\<rparr>" w2 t2 auth] assms
    by (simp add: numeral_2_eq_2)
  have v3: "verify_otp auth t3 (Some e) (Some w3) (store(e \<mapsto> r\<lparr>attempts := 2\<rparr>)) =
      (res_status_json 400 (message ''Invalid OTP''), store(e \<mapsto> r\<lparr>attempts := 3\<rparr>))"
    using verify_otp_mismatch
      [of "store(e \<mapsto> r\<lparr>attempts := 2\<rparr>)" e "r\<lparr>attempts := 2\<rparr>" w3 t3 auth] assms
    by simp
  have v4: "verify_otp auth t4 (Some e) (Some (otp r)) (store(e \<mapsto> r\<lparr>attempts := 3\<rparr>)) =
      (res_status_json 400 (message ''Too many failed attempts. Please request a new OTP.''),
       store(e := None))"
    using verify_otp_exhausted
      [of "store(e \<mapsto> r\<lparr>attempts := 3\<rparr>)" e "r\<lparr>attempts := 3\<rparr>" "otp r" t4 auth] assms
    by simp
  show ?thesis
    unfolding v1 v2 v3 v4 by (simp add: res_status_json_def message_def)
qed

theorem three_wrong_then_correct_witness:
  "[''x@ceg.edu'' \<mapsto> \<lparr>otp = ''483920'', expiresAt = 300000, attempts = 0\<rparr>] ''x@ceg.edu'' =
     Some \<lparr>otp = ''483920'', expiresAt = 300000, attempts = 0\<rparr> \<and>
   verify_otp
     \<lparr>getUserByEmail = Map.empty, createUser = Map.empty,
      createCustomToken = (\<lambda>u. Map.empty)\<rparr>
     1 (Some ''x@ceg.edu'') (Some ''000000'')
     [''x@ceg.edu'' \<mapsto> \<lparr>otp = ''483920'', expiresAt = 300000, attempts = 0\<rparr>] =
     (\<lparr>status = 400, body = [(''message'', JStr ''Invalid OTP'')]\<rparr>,
      [''x@ceg.edu'' \<mapsto> \<lparr>otp = ''483920'', expiresAt = 300000, attempts = 1\<rparr>]) \<and>
   verify_otp
     \<lparr>getUserByEmail = Map.empty, createUser = Map.empty,
      createCustomToken = (\<lambda>u. Map.empty)\<rparr>
     2 (Some ''x@ceg.edu'') (Some ''111111'')
     [''x@ceg.edu'' \<mapsto> \<lparr>otp = ''483920'', expiresAt = 300000, attempts = 1\<rparr>] =
     (\<lparr>status = 400, body = [(''message'', JStr ''Invalid OTP'')]\<rparr>,
      [''x@ceg.edu'' \<mapsto> \<lparr>otp = ''483920'', expiresAt = 300000, attempts = 2\<rparr>]) \<and>
   verify_otp
     \<lparr>getUserByEmail = Map.empty, createUser = Map.empty,
      createCustomToken = (\<lambda>u. Map.empty)\<rparr>
     3 (Some ''x@ceg.edu'') (Some ''000000'')
     [''x@ceg.edu'' \<mapsto> \<lparr>otp = ''483920'', expiresAt = 300000, attempts = 2\<rparr>] =
     (\<lparr>status = 400, body = [(''message'', JStr ''Invalid OTP'')]\<rparr>,
      [''x@ceg.edu'' \<mapsto> \<lparr>otp = ''483920'', expiresAt = 300000, attempts = 3\<rparr>]) \<and>
   verify_otp
     \<lparr>getUserByEmail = Map.empty, createUser = Map.empty,
      createCustomToken = (\<lambda>u. Map.empty)\<rparr>
     4 (Some ''x@ceg.edu'') (Some ''483920'')
     [''x@ceg.edu'' \<mapsto> \<lparr>otp = ''483920'', expiresAt = 300000, attempts = 3\<rparr>] =
     (\<lparr>status = 400,
       body = [(''message'', JStr ''Too many failed attempts. Please request a new OTP.'')]\<rparr>,
      Map.empty)"
  using three_wrong_then_correct
    [of "[''x@ceg.edu'' \<mapsto> \<lparr>otp = ''483920'', expiresAt = 300000, attempts = 0\<rparr>]"
      "''x@ceg.edu''" "\<lparr>otp = ''483920'', expiresAt = 300000, attempts = 0\<rparr>"
      "''000000''" "''111111''" "''000000''" 1 2 3 4
      "\<lparr>getUserByEmail = Map.empty, createUser = Map.empty, createCustomToken = (\<lambda>u. Map.empty)\<rparr>"]
  by simp

text \<open>
  C8. For every valid email the success response of send-otp is the message with
  \<open>expiresIn = 300\<close>, the expiry window in seconds, and it does not depend on the random
  draw: two runs that differ only in the generated code send the same response (also
  when the mail fails), while the stored code is the generated one.
\<close>

theorem send_otp_response_independent_of_code:
  assumes "emailRegex_test e"
  shows "fst (send_otp now rnd True (Some e) store) =
           \<lparr>status = 200,
            body = [(''message'', JStr ''OTP sent successfully''), (''expiresIn'', JNum 300)]\<rparr> \<and>
         fst (send_otp now rnd mail_ok (Some e) store) =
           fst (send_otp now rnd' mail_ok (Some e) store) \<and>
         map_option otp (snd (send_otp now rnd mail_ok (Some e) store) e) =
           Some (generateOTP rnd)"
  using assms by (simp add: send_otp_valid res_json_def)

theorem send_otp_response_independent_of_code_witness:
  "emailRegex_test ''x@ceg.edu'' \<and>
   fst (send_otp 0 0 True (Some ''x@ceg.edu'') Map.empty) =
     \<lparr>status = 200,
      body = [(''message'', JStr ''OTP sent successfully''), (''expiresIn'', JNum 300)]\<rparr> \<and>
   fst (send_otp 0 0 True (Some ''x@ceg.edu'') Map.empty) =
     fst (send_otp 0 (1 / 2) True (Some ''x@ceg.edu'') Map.empty) \<and>
   generateOTP 0 \<noteq> generateOTP (1 / 2)"
proof -
  have "generateOTP 0 = ''100000''" and "generateOTP (1 / 2) = ''550000''"
    by (rule generateOTP_0, rule generateOTP_half)
  then have g: "generateOTP 0 \<noteq> generateOTP (1 / 2)" by simp
  note t = send_otp_response_independent_of_code
      [OF emailRegex_test_example, of 0 0 Map.empty True "1 / 2"]
  from t have a: "fst (send_otp 0 0 True (Some ''x@ceg.edu'') Map.empty) =
      \<lparr>status = 200,
       body = [(''message'', JStr ''OTP sent successfully''), (''expiresIn'', JNum 300)]\<rparr>"
    by (rule conjunct1)
  from t have b: "fst (send_otp 0 0 True (Some ''x@ceg.edu'') Map.empty) =
      fst (send_otp 0 (1 / 2) True (Some ''x@ceg.edu'') Map.empty)"
    by blast
  show ?thesis using emailRegex_test_example a b g by blast
qed

text \<open>
  C9. When the mail dispatch fails, send-otp answers 500 and has nonetheless replaced the
  record of that email with the new code, the new expiry and \<open>attempts = 0\<close>, whatever was
  stored before; the other emails' records are untouched, and any other code (an earlier
  one included) presented before the new expiry is rejected as invalid and counted as a
  failed attempt on the new record.
\<close>

theorem send_otp_mail_failure_overwrites:
  assumes "emailRegex_test e"
  shows "send_otp now rnd False (Some e) store =
           (\<lparr>status = 500,
             body = [(''message'', JStr ''Failed to send OTP. Please try again.'')]\<rparr>,
            store(e \<mapsto> \<lparr>otp = generateOTP rnd, expiresAt = now + 300000, attempts = 0\<rparr>)) \<and>
         (c \<noteq> [] \<and> c \<noteq> generateOTP rnd \<and> t \<le> now + 300000 \<longrightarrow>
            verify_otp auth t (Some e) (Some c)
                (store(e \<mapsto> \<lparr>otp = generateOTP rnd, expiresAt = now + 300000,
                              attempts = 0\<rparr>)) =
              (\<lparr>status = 400, body = [(''message'', JStr ''Invalid OTP'')]\<rparr>,
               store(e \<mapsto> \<lparr>otp = generateOTP rnd, expiresAt = now + 300000,
                             attempts = 1\<rparr>)))"
proof -
  let ?r = "\<lparr>otp = generateOTP rnd, expiresAt = now + 300000, attempts = 0\<rparr>"
  have e: "e \<noteq> []" using assms by (rule emailRegex_test_not_Nil)
  have s: "send_otp now rnd False (Some e) store =
      (res_status_json 500 (message ''Failed to send OTP. Please try again.''), store(e \<mapsto> ?r))"
    using assms by (simp add: send_otp_valid)
  have "verify_otp auth t (Some e) (Some c) (store(e \<mapsto> ?r)) =
      (res_status_json 400 (message ''Invalid OTP''), store(e \<mapsto> ?r\<lparr>attempts := 1\<rparr>))"
    if "c \<noteq> []" and "c \<noteq> generateOTP rnd" and "t \<le> now + 300000"
    using verify_otp_mismatch [of "store(e \<mapsto> ?r)" e ?r c t auth] that e by simp
  then show ?thesis
    unfolding s by (simp add: res_status_json_def message_def)
qed

theorem send_otp_mail_failure_overwrites_witness:
  "emailRegex_test ''x@ceg.edu'' \<and>
   send_otp 1000 0 False (Some ''x@ceg.edu'')
     [''x@ceg.edu'' \<mapsto> \<lparr>otp = ''483920'', expiresAt = 300000, attempts = 2\<rparr>] =
     (\<lparr>status = 500,
       body = [(''message'', JStr ''Failed to send OTP. Please try again.'')]\<rparr>,
      [''x@ceg.edu'' \<mapsto> \<lparr>otp = ''100000'', expiresAt = 301000, attempts = 0\<rparr>]) \<and>
   verify_otp
     \<lparr>getUserByEmail = Map.empty, createUser = Map.empty,
      createCustomToken = (\<lambda>u. Map.empty)\<rparr> 2000 (Some ''x@ceg.edu'') (Some ''483920'')
     [''x@ceg.edu'' \<mapsto> \<lparr>otp = ''100000'', expiresAt = 301000, attempts = 0\<rparr>] =
     (\<lparr>status = 400, body = [(''message'', JStr ''Invalid OTP'')]\<rparr>,
      [''x@ceg.edu'' \<mapsto> \<lparr>otp = ''100000'', expiresAt = 301000, attempts = 1\<rparr>])"
proof -
  have g: "generateOTP 0 = ''100000''"
    by (rule generateOTP_0)
  show ?thesis
    using send_otp_mail_failure_overwrites
      [OF emailRegex_test_example, of 1000 0
        "[''x@ceg.edu'' \<mapsto> \<lparr>otp = ''483920'', expiresAt = 300000, attempts = 2\<rparr>]"
        "''483920''" 2000
        "\<lparr>getUserByEmail = Map.empty, createUser = Map.empty,
          createCustomToken = (\<lambda>u. Map.empty)\<rparr>"]
      emailRegex_test_example
    by (simp add: g)
qed

section \<open>The trending feed\<close>

lemma set_insert_sorted: "set (insert_sorted cmp x xs) = insert x (set xs)"
  by (induction xs) auto

lemma set_js_sort: "set (js_sort cmp xs) = set xs"
  by (induction xs) (simp_all add: js_sort_def set_insert_sorted)

lemma sorted_insert_sorted:
  assumes cmp: "\<And>a b. (cmp a b \<le> 0) = P a b"
    and total: "\<And>a b. P a b \<or> P b a"
    and trans: "\<And>a b c. P a b \<Longrightarrow> P b c \<Longrightarrow> P a c"
  shows "sorted_wrt P xs \<Longrightarrow> sorted_wrt P (insert_sorted cmp x xs)"
proof (induction xs)
  case Nil
  then show ?case by simp
next
  case (Cons y ys)
  show ?case
  proof (cases "cmp x y \<le> 0")
    case True
    then have xy: "P x y" by (simp add: cmp)
    from Cons.prems have "\<forall>z\<in>set ys. P y z" by simp
    with xy have "\<forall>z\<in>set ys. P x z" by (blast intro: trans)
    with True xy Cons.prems show ?thesis by simp
  next
    case False
    then have "\<not> P x y" by (simp add: cmp)
    with total [of x y] have "P y x" by simp
    with False Cons show ?thesis by (simp add: set_insert_sorted)
  qed
qed

lemma sorted_js_sort:
  assumes "\<And>a b. (cmp a b \<le> 0) = P a b"
    and "\<And>a b. P a b \<or> P b a"
    and "\<And>a b c. P a b \<Longrightarrow> P b c \<Longrightarrow> P a c"
  shows "sorted_wrt P (js_sort cmp xs)"
proof (induction xs)
  case Nil
  then show ?case by (simp add: js_sort_def)
next
  case (Cons x xs)
  have "js_sort cmp (x # xs) = insert_sorted cmp x (js_sort cmp xs)"
    by (simp add: js_sort_def)
  with Cons show ?case
    using sorted_insert_sorted [of cmp P "js_sort cmp xs" x, OF assms] by simp
qed

lemma sorted_by_likes:
  "sorted_wrt more_liked (js_sort (\<lambda>a b. int (like_count b) - int (like_count a)) xs)"
  by (rule sorted_js_sort) (auto simp: more_liked_def)

lemma query_posts_since:
  assumes "d \<in> set (query_posts ps (Some s) limit)"
  shows "\<exists>t. timestamp (snd d) = Some t \<and> s \<le> t"
proof -
  from assms have "d \<in> set (filter (\<lambda>d. case timestamp (snd d) of
      None \<Rightarrow> False | Some t \<Rightarrow> (case Some s of None \<Rightarrow> True | Some s \<Rightarrow> s \<le> t)) ps)"
    unfolding query_posts_def by (auto dest: in_set_takeD simp: set_js_sort)
  then show ?thesis by (auto split: option.splits)
qed

lemma fetch_posts_recent:
  assumes "\<forall>k. t0 \<le> clock k"
  shows "fetch_posts u ''trending'' limit clock fails coll k ids = Some items \<Longrightarrow>
         list_all (within_24h t0) items"
proof (induction ids arbitrary: k items)
  case Nil
  then show ?case by simp
next
  case (Cons cid rest)
  let ?docs = "query_posts (case map_of coll cid of None \<Rightarrow> [] | Some c \<Rightarrow> posts c)
      (Some (clock k - 24 * 60 * 60 * 1000)) limit"
  from Cons.prems obtain more where
    more: "fetch_posts u ''trending'' limit clock fails coll (Suc k) rest = Some more"
    and items: "items = map (\<lambda>d. \<lparr>item_id = fst d, communityId = cid,
        communityName = map_option name (map_of coll cid), item_post = snd d,
        isLiked = js_includes (likes (snd d)) u\<rparr>) ?docs @ more"
    by (auto simp: Let_def split: if_splits)
  from more have "list_all (within_24h t0) more" by (rule Cons.IH)
  moreover have "within_24h t0 \<lparr>item_id = fst d, communityId = cid,
        communityName = map_option name (map_of coll cid), item_post = snd d,
        isLiked = js_includes (likes (snd d)) u\<rparr>"
    if "d \<in> set ?docs" for d
  proof -
    from that obtain t where "timestamp (snd d) = Some t" and "clock k - 24 * 60 * 60 * 1000 \<le> t"
      using query_posts_since by blast
    moreover have "t0 \<le> clock k" using assms by simp
    ultimately show ?thesis by (simp add: within_24h_def)
  qed
  ultimately show ?case
    unfolding items by (auto simp: list_all_iff)
qed

text \<open>
  C4. For every caller and every feed request with filter \<open>trending\<close> that is answered
  with posts: every returned post is stamped no earlier than 24 hours before the
  request (\<open>t0\<close> is a time not after any of the handler's clock readings), and the
  returned list is in descending order of like-set size.
\<close>

theorem trending_feed_recent_and_sorted:
  assumes "feed u limit offset ''trending'' clock fails coll = Inr items"
    and "\<forall>k. t0 \<le> clock k"
  shows "list_all (within_24h t0) items \<and> sorted_wrt more_liked items"
proof (cases "fetch_posts (uid u) ''trending'' limit clock fails coll 1
    (map fst (filter (\<lambda>d. js_includes (followers (snd d)) (uid u)) coll))")
  case None
  with assms(1) have "items = []"
    by (auto simp: feed_def Let_def split: if_splits)
  then show ?thesis by simp
next
  case (Some allPosts)
  let ?sorted = "js_sort (\<lambda>a b. int (like_count b) - int (like_count a)) allPosts"
  from Some assms(1) have "items = [] \<or> items = take limit (drop offset ?sorted)"
    by (auto simp: feed_def Let_def split: if_splits)
  moreover have "list_all (within_24h t0) (take limit (drop offset ?sorted))"
  proof -
    from Some have "list_all (within_24h t0) allPosts"
      using fetch_posts_recent [OF assms(2)] by blast
    then show ?thesis
      by (auto simp: list_all_iff set_js_sort dest!: in_set_takeD in_set_dropD)
  qed
  moreover have "sorted_wrt more_liked (take limit (drop offset ?sorted))"
    by (intro sorted_wrt_take sorted_wrt_drop sorted_by_likes)
  ultimately show ?thesis by auto
qed

theorem trending_feed_recent_and_sorted_witness:
  "(\<forall>k. (100000000::int) \<le> 100000000 + int k) \<and>
   (case feed (example_user ''u2'') 20 0 ''trending'' (\<lambda>k. 100000000 + int k) None
           [(''c1'', example_community ''u1'' [''u1'', ''u2'']
                [(''p1'', example_post ''u1'' 99999000 [''u2'']),
                 (''p2'', example_post ''u1'' 10000000 [''u1'', ''u2'', ''u3''])]),
            (''c2'', example_community ''u3'' [''u3'', ''u2'']
                [(''p3'', example_post ''u3'' 99998000 [''u1'', ''u3''])]),
            (''c3'', example_community ''u3'' [''u3'']
                [(''p4'', example_post ''u3'' 99999999 [''u1'', ''u2'', ''u3'', ''u4''])])] of
      Inl r \<Rightarrow> False
    | Inr items \<Rightarrow>
        map item_id items = [''p3'', ''p1''] \<and> map like_count items = [2, 1] \<and>
        list_all (within_24h 100000000) items \<and> sorted_wrt more_liked items)"
proof -
  let ?coll = "[(''c1'', example_community ''u1'' [''u1'', ''u2'']
                [(''p1'', example_post ''u1'' 99999000 [''u2'']),
                 (''p2'', example_post ''u1'' 10000000 [''u1'', ''u2'', ''u3''])]),
            (''c2'', example_community ''u3'' [''u3'', ''u2'']
                [(''p3'', example_post ''u3'' 99998000 [''u1'', ''u3''])]),
            (''c3'', example_community ''u3'' [''u3'']
                [(''p4'', example_post ''u3'' 99999999 [''u1'', ''u2'', ''u3'', ''u4''])])]"
  have clock: "\<forall>k. (100000000::int) \<le> 100000000 + int k" by simp
  obtain items where
    f: "feed (example_user ''u2'') 20 0 ''trending'' (\<lambda>k. 100000000 + int k) None ?coll =
        Inr items"
    and ids: "map item_id items = [''p3'', ''p1'']" "map like_count items = [2, 1]"
    by (simp add: feed_def query_posts_def js_sort_def js_includes_def like_count_def
        example_user_def example_community_def example_post_def)
  from trending_feed_recent_and_sorted [OF f clock]
  have "list_all (within_24h 100000000) items \<and> sorted_wrt more_liked items" .
  with clock ids show ?thesis unfolding f by simp
qed

section \<open>Communities: follow and post\<close>

lemma map_of_update_doc:
  "map_of (update_doc k f coll) k' =
     (if k' = k then map_option f (map_of coll k) else map_of coll k')"
  by (induction coll) auto

lemma follower_set_arrayRemove:
  "follower_set (c\<lparr>followers := arrayRemove x (followers c), updatedAt := t\<rparr>) =
     follower_set c - {x}"
  by (auto simp: follower_set_def arrayRemove_def split: option.splits)

lemma follower_set_arrayUnion:
  "follower_set (c\<lparr>followers := arrayUnion x (followers c), updatedAt := t\<rparr>) =
     insert x (follower_set c)"
  by (auto simp: follower_set_def arrayUnion_def split: option.splits)

lemma js_includes_follower_set: "js_includes (followers c) x = (x \<in> follower_set c)"
  by (simp add: js_includes_def follower_set_def split: option.splits)

lemma follow_exists:
  assumes "map_of coll cid = Some c"
  shows "follow u cid t None coll =
     (if uid u \<in> follower_set c
      then (res_json [(''message'', JStr ''Unfollowed community''),
                      (''isFollowing'', JBool False)],
            update_doc cid (\<lambda>c. c\<lparr>followers := arrayRemove (uid u) (followers c),
                                   updatedAt := Some t\<rparr>) coll)
      else (res_json [(''message'', JStr ''Following community''),
                      (''isFollowing'', JBool True)],
            update_doc cid (\<lambda>c. c\<lparr>followers := arrayUnion (uid u) (followers c),
                                   updatedAt := Some t\<rparr>) coll))"
  using assms by (simp add: follow_def js_includes_follower_set)

lemma follow_followers_of:
  assumes "map_of coll cid = Some c"
  shows "followers_of (snd (follow u cid t None coll)) cid =
     (if uid u \<in> follower_set c then follower_set c - {uid u}
      else insert (uid u) (follower_set c))"
  using assms
  by (simp add: follow_exists followers_of_def map_of_update_doc follower_set_arrayRemove
      follower_set_arrayUnion)

lemma follow_keeps_doc:
  assumes "map_of coll cid = Some c"
  shows "\<exists>c'. map_of (snd (follow u cid t None coll)) cid = Some c' \<and>
     posts c' = posts c \<and> postCount c' = postCount c"
  using assms by (simp add: follow_exists map_of_update_doc)

lemma follow_echo:
  assumes "map_of coll cid = Some c"
  shows "map_of (body (fst (follow u cid t None coll))) ''isFollowing'' =
     Some (JBool (uid u \<in> followers_of (snd (follow u cid t None coll)) cid))"
  using assms by (simp add: follow_followers_of) (simp add: follow_exists res_json_def)

text \<open>
  C7. For every community that exists and every caller, with the store answering: each
  follow toggle reports in \<open>isFollowing\<close> whether the caller's id is in the follower set
  the toggle leaves, and one toggle inverts the caller's membership; after two toggles
  the follower set is the original one, and the second toggle reports the caller's
  original membership.
\<close>

theorem follow_twice_restores:
  assumes "map_of coll cid = Some c"
  shows "map_of (body (fst (follow u cid t1 None coll))) ''isFollowing'' =
           Some (JBool (uid u \<in> followers_of (snd (follow u cid t1 None coll)) cid)) \<and>
         (uid u \<in> followers_of (snd (follow u cid t1 None coll)) cid) =
           (uid u \<notin> followers_of coll cid) \<and>
         map_of (body (fst (follow u cid t2 None (snd (follow u cid t1 None coll)))))
             ''isFollowing'' =
           Some (JBool (uid u \<in> followers_of coll cid)) \<and>
         followers_of (snd (follow u cid t2 None (snd (follow u cid t1 None coll)))) cid =
           followers_of coll cid"
proof -
  let ?coll1 = "snd (follow u cid t1 None coll)"
  let ?coll2 = "snd (follow u cid t2 None ?coll1)"
  have f0: "followers_of coll cid = follower_set c"
    using assms by (simp add: followers_of_def)
  have f1: "followers_of ?coll1 cid =
      (if uid u \<in> follower_set c then follower_set c - {uid u}
       else insert (uid u) (follower_set c))"
    using assms by (rule follow_followers_of)
  from follow_keeps_doc [OF assms] obtain c1 where c1: "map_of ?coll1 cid = Some c1"
    by blast
  then have fc1: "follower_set c1 = followers_of ?coll1 cid"
    by (simp add: followers_of_def)
  have f2: "followers_of ?coll2 cid =
      (if uid u \<in> follower_set c1 then follower_set c1 - {uid u}
       else insert (uid u) (follower_set c1))"
    using c1 by (rule follow_followers_of)
  have e1: "map_of (body (fst (follow u cid t1 None coll))) ''isFollowing'' =
      Some (JBool (uid u \<in> followers_of ?coll1 cid))"
    using assms by (rule follow_echo)
  have e2: "map_of (body (fst (follow u cid t2 None ?coll1))) ''isFollowing'' =
      Some (JBool (uid u \<in> followers_of ?coll2 cid))"
    using c1 by (rule follow_echo)
  have restored: "followers_of ?coll2 cid = followers_of coll cid"
    unfolding f2 fc1 f1 f0 by auto
  have flipped: "(uid u \<in> followers_of ?coll1 cid) = (uid u \<notin> followers_of coll cid)"
    unfolding f1 f0 by auto
  from e1 flipped e2 restored show ?thesis by simp
qed

theorem follow_twice_restores_witness:
  "map_of [(''c1'', example_community ''u1'' [''u1'', ''u2''] [])] ''c1'' =
     Some (example_community ''u1'' [''u1'', ''u2''] []) \<and>
   follow (example_user ''u2'') ''c1'' 10 None
       [(''c1'', example_community ''u1'' [''u1'', ''u2''] [])] =
     (\<lparr>status = 200,
       body = [(''message'', JStr ''Unfollowed community''), (''isFollowing'', JBool False)]\<rparr>,
      [(''c1'', (example_community ''u1'' [''u1'', ''u2''] [])
                  \<lparr>followers := Some [''u1''], updatedAt := Some 10\<rparr>)]) \<and>
   follow (example_user ''u2'') ''c1'' 20 None
       [(''c1'', (example_community ''u1'' [''u1'', ''u2''] [])
                   \<lparr>followers := Some [''u1''], updatedAt := Some 10\<rparr>)] =
     (\<lparr>status = 200,
       body = [(''message'', JStr ''Following community''), (''isFollowing'', JBool True)]\<rparr>,
      [(''c1'', (example_community ''u1'' [''u1'', ''u2''] [])
                  \<lparr>followers := Some [''u1'', ''u2''], updatedAt := Some 20\<rparr>)]) \<and>
   followers_of (snd (follow (example_user ''u2'') ''c1'' 20 None
       (snd (follow (example_user ''u2'') ''c1'' 10 None
          [(''c1'', example_community ''u1'' [''u1'', ''u2''] [])])))) ''c1'' =
     followers_of [(''c1'', example_community ''u1'' [''u1'', ''u2''] [])] ''c1''"
proof -
  let ?coll = "[(''c1'', example_community ''u1'' [''u1'', ''u2''] [])]"
  have h: "map_of ?coll ''c1'' = Some (example_community ''u1'' [''u1'', ''u2''] [])"
    by simp
  have a: "follow (example_user ''u2'') ''c1'' 10 None ?coll =
     (\<lparr>status = 200,
       body = [(''message'', JStr ''Unfollowed community''), (''isFollowing'', JBool False)]\<rparr>,
      [(''c1'', (example_community ''u1'' [''u1'', ''u2''] [])
                  \<lparr>followers := Some [''u1''], updatedAt := Some 10\<rparr>)])"
    by (simp add: follow_def js_includes_def arrayRemove_def example_community_def
        example_user_def res_json_def)
  have b: "follow (example_user ''u2'') ''c1'' 20 None
       [(''c1'', (example_community ''u1'' [''u1'', ''u2''] [])
                   \<lparr>followers := Some [''u1''], updatedAt := Some 10\<rparr>)] =
     (\<lparr>status = 200,
       body = [(''message'', JStr ''Following community''), (''isFollowing'', JBool True)]\<rparr>,
      [(''c1'', (example_community ''u1'' [''u1'', ''u2''] [])
                  \<lparr>followers := Some [''u1'', ''u2''], updatedAt := Some 20\<rparr>)])"
    by (simp add: follow_def js_includes_def arrayUnion_def example_community_def
        example_user_def res_json_def)
  from follow_twice_restores [OF h, of "example_user ''u2''" 10 20]
  have c: "followers_of (snd (follow (example_user ''u2'') ''c1'' 20 None
       (snd (follow (example_user ''u2'') ''c1'' 10 None ?coll)))) ''c1'' =
     followers_of ?coll ''c1''"
    by blast
  from h a b c show ?thesis by (intro conjI)
qed

lemma create_post_not_follower:
  assumes "map_of coll cid = Some c" and "uid u \<notin> follower_set c"
    and "has_content txt imgs"
  shows "create_post ign u cid txt imgs t newId None coll =
     (res_status_json 403 (message ''Must follow community to post''), coll)"
  using assms
  by (auto simp: create_post_def has_content_def js_includes_follower_set Let_def
      split: option.splits)

lemma create_post_follower:
  assumes "map_of coll cid = Some c" and "uid u \<in> follower_set c"
    and "has_content txt imgs"
    and "ign \<or> (txt \<noteq> None \<and> picture u \<noteq> None)"
  shows "create_post ign u cid txt imgs t newId None coll =
     (res_json [(''id'', JStr newId), (''message'', JStr ''Post created successfully'')],
      update_doc cid (\<lambda>c. c\<lparr>postCount := postCount c + 1, updatedAt := Some t\<rparr>)
        (update_doc cid
           (\<lambda>c. c\<lparr>posts := posts c @
               [(newId, \<lparr>postText = txt,
                          images = (case imgs of None \<Rightarrow> [] | Some l \<Rightarrow> l),
                          author = uid u, authorName = author_name u,
                          authorPhoto = picture u, timestamp = Some t, likes = Some [],
                          comments = 0\<rparr>)]\<rparr>) coll))"
  using assms
  by (auto simp: create_post_def has_content_def js_includes_follower_set Let_def
      split: option.splits)

text \<open>
  What the handler does when the store takes the new document. For every community that
  exists, every caller outside its follower set and every post body with content: the
  post is refused with 403 and the whole collection is unchanged; after the caller
  follows the community, the same body is accepted with status 200, the post is
  appended and \<open>postCount\<close> is the former count plus one. The last hypothesis is the
  store's: the Admin SDK refuses a document that holds \<open>undefined\<close> unless
  \<open>ignoreUndefinedProperties\<close> is on.
\<close>

lemma create_post_after_follow:
  assumes "map_of coll cid = Some c"
    and "uid u \<notin> follower_set c"
    and "has_content txt imgs"
    and "ign \<or> (txt \<noteq> None \<and> picture u \<noteq> None)"
  shows "create_post ign u cid txt imgs t0 newId None coll =
           (\<lparr>status = 403, body = [(''message'', JStr ''Must follow community to post'')]\<rparr>,
            coll) \<and>
         fst (create_post ign u cid txt imgs t2 newId None (snd (follow u cid t1 None coll))) =
           \<lparr>status = 200,
            body = [(''id'', JStr newId), (''message'', JStr ''Post created successfully'')]\<rparr> \<and>
         map_option postCount
             (map_of (snd (create_post ign u cid txt imgs t2 newId None
                             (snd (follow u cid t1 None coll)))) cid) =
           Some (postCount c + 1) \<and>
         map_option (map fst \<circ> posts)
             (map_of (snd (create_post ign u cid txt imgs t2 newId None
                             (snd (follow u cid t1 None coll)))) cid) =
           Some (map fst (posts c) @ [newId])"
proof -
  let ?coll1 = "snd (follow u cid t1 None coll)"
  from follow_keeps_doc [OF assms(1)] obtain c1 where
    c1: "map_of ?coll1 cid = Some c1" and keep: "posts c1 = posts c" "postCount c1 = postCount c"
    by blast
  have "followers_of ?coll1 cid = insert (uid u) (follower_set c)"
    using assms(1,2) by (simp add: follow_followers_of)
  with c1 have member: "uid u \<in> follower_set c1" by (simp add: followers_of_def)
  note ok = create_post_follower [OF c1 member assms(3,4), of t2 newId]
  have forbidden: "create_post ign u cid txt imgs t0 newId None coll =
      (\<lparr>status = 403, body = [(''message'', JStr ''Must follow community to post'')]\<rparr>, coll)"
    using create_post_not_follower [OF assms(1,2,3), of ign t0 newId]
    by (simp add: res_status_json_def message_def)
  have created: "fst (create_post ign u cid txt imgs t2 newId None ?coll1) =
      \<lparr>status = 200,
       body = [(''id'', JStr newId), (''message'', JStr ''Post created successfully'')]\<rparr>"
    unfolding ok by (simp add: res_json_def)
  have counted: "map_option postCount
      (map_of (snd (create_post ign u cid txt imgs t2 newId None ?coll1)) cid) =
      Some (postCount c + 1)"
    unfolding ok using c1 keep by (simp add: map_of_update_doc)
  have appended: "map_option (map fst \<circ> posts)
      (map_of (snd (create_post ign u cid txt imgs t2 newId None ?coll1)) cid) =
      Some (map fst (posts c) @ [newId])"
    unfolding ok using c1 keep by (simp add: map_of_update_doc)
  from forbidden created counted appended show ?thesis by (intro conjI)
qed

text \<open>
  With the setting off, as the repository leaves it, a follower's post with no \<open>text\<close>
  field or from a caller whose token has no \<open>picture\<close> claim is refused by the store: the
  handler answers 500 and writes nothing.
\<close>

lemma create_post_rejected_by_store:
  assumes "map_of coll cid = Some c" and "uid u \<in> follower_set c"
    and "has_content txt imgs"
    and "txt = None \<or> picture u = None"
  shows "create_post False u cid txt imgs t newId None coll =
     (res_status_json 500 (message ''Failed to create post''), coll)"
  using assms
  by (auto simp: create_post_def has_content_def js_includes_follower_set Let_def
      split: option.splits)

text \<open>
  C5. A caller outside a community's follower set who creates a post in it is refused
  with 403 and the community is unchanged; after the caller follows the community, the
  same post body is to succeed and raise \<open>postCount\<close> by exactly one. The handler does the
  first and, at this input, misses the second. The caller is a user as verify-otp
  creates them, with an email and no photo, so the token has no \<open>picture\<close> claim:
  \<open>authorPhoto\<close> is \<open>undefined\<close>, the store's \<open>add\<close> throws, and after the follow the post
  with text \<open>hello\<close> gets 500, nothing is stored and \<open>postCount\<close> stays 0. The same happens
  to a caller with a photo whose body has images and no text.
\<close>

theorem post_after_follow_rejected_without_picture:
  "create_post False \<lparr>uid = ''u2'', userName = None, email = Some ''u2@ceg.edu'', picture = None\<rparr>
       ''c1'' (Some ''hello'') None 5 ''p1'' None
       [(''c1'', example_community ''u1'' [''u1''] [])] =
     (\<lparr>status = 403, body = [(''message'', JStr ''Must follow community to post'')]\<rparr>,
      [(''c1'', example_community ''u1'' [''u1''] [])]) \<and>
   follow \<lparr>uid = ''u2'', userName = None, email = Some ''u2@ceg.edu'', picture = None\<rparr>
       ''c1'' 10 None [(''c1'', example_community ''u1'' [''u1''] [])] =
     (\<lparr>status = 200,
       body = [(''message'', JStr ''Following community''), (''isFollowing'', JBool True)]\<rparr>,
      [(''c1'', (example_community ''u1'' [''u1''] [])
                  \<lparr>followers := Some [''u1'', ''u2''], updatedAt := Some 10\<rparr>)]) \<and>
   create_post False \<lparr>uid = ''u2'', userName = None, email = Some ''u2@ceg.edu'', picture = None\<rparr>
       ''c1'' (Some ''hello'') None 20 ''p1'' None
       [(''c1'', (example_community ''u1'' [''u1''] [])
                   \<lparr>followers := Some [''u1'', ''u2''], updatedAt := Some 10\<rparr>)] =
     (\<lparr>status = 500, body = [(''message'', JStr ''Failed to create post'')]\<rparr>,
      [(''c1'', (example_community ''u1'' [''u1''] [])
                  \<lparr>followers := Some [''u1'', ''u2''], updatedAt := Some 10\<rparr>)]) \<and>
   postCount ((example_community ''u1'' [''u1''] [])
                \<lparr>followers := Some [''u1'', ''u2''], updatedAt := Some 10\<rparr>) = 0 \<and>
   create_post False (example_user ''u2'') ''c1'' None (Some [''a.png'']) 20 ''p1'' None
       [(''c1'', (example_community ''u1'' [''u1''] [])
                   \<lparr>followers := Some [''u1'', ''u2''], updatedAt := Some 10\<rparr>)] =
     (\<lparr>status = 500, body = [(''message'', JStr ''Failed to create post'')]\<rparr>,
      [(''c1'', (example_community ''u1'' [''u1''] [])
                  \<lparr>followers := Some [''u1'', ''u2''], updatedAt := Some 10\<rparr>)])"
  by (simp add: create_post_def follow_def js_includes_def arrayUnion_def
      example_community_def example_user_def res_json_def res_status_json_def message_def)

section \<open>Groups: leave\<close>

text \<open>
  C6 (as amended). For every group that exists and has a member list, whatever its
  length, with the first store call answering: a caller who is the group's admin and is
  in the member list gets \<open>Admin cannot leave the group\<close>, and a caller who is not in
  the member list (the admin included) gets \<open>Not a member of this group\<close>; both are
  sent with status 400 and leave the collection, hence the member set, unchanged.
\<close>

theorem leave_admin_or_absent:
  assumes "map_of groups gid = Some g"
    and "members g = Some ms"
    and "fails \<noteq> Some 0"
  shows "(uid u \<in> set ms \<and> groupAdmin g = uid u \<longrightarrow>
            leave u gid now fails groups =
              (\<lparr>status = 400, body = [(''message'', JStr ''Admin cannot leave the group'')]\<rparr>,
               groups)) \<and>
         (uid u \<notin> set ms \<longrightarrow>
            leave u gid now fails groups =
              (\<lparr>status = 400, body = [(''message'', JStr ''Not a member of this group'')]\<rparr>,
               groups))"
  using assms by (simp add: leave_def res_status_json_def message_def)

theorem leave_admin_or_absent_witness:
  "leave (example_user ''u1'') ''g1'' 10 None
       [(''g1'', \<lparr>groupName = ''Robotics'', groupDescription = ''Robots'', isPrivate = False,
                  members = Some [''u1'', ''u2'', ''u3''], groupAdmin = ''u1'',
                  groupCreatedAt = 0, groupUpdatedAt = 0\<rparr>)] =
     (\<lparr>status = 400, body = [(''message'', JStr ''Admin cannot leave the group'')]\<rparr>,
      [(''g1'', \<lparr>groupName = ''Robotics'', groupDescription = ''Robots'', isPrivate = False,
                 members = Some [''u1'', ''u2'', ''u3''], groupAdmin = ''u1'',
                 groupCreatedAt = 0, groupUpdatedAt = 0\<rparr>)]) \<and>
   leave (example_user ''u4'') ''g1'' 10 None
       [(''g1'', \<lparr>groupName = ''Robotics'', groupDescription = ''Robots'', isPrivate = False,
                  members = Some [''u1'', ''u2'', ''u3''], groupAdmin = ''u1'',
                  groupCreatedAt = 0, groupUpdatedAt = 0\<rparr>)] =
     (\<lparr>status = 400, body = [(''message'', JStr ''Not a member of this group'')]\<rparr>,
      [(''g1'', \<lparr>groupName = ''Robotics'', groupDescription = ''Robots'', isPrivate = False,
                 members = Some [''u1'', ''u2'', ''u3''], groupAdmin = ''u1'',
                 groupCreatedAt = 0, groupUpdatedAt = 0\<rparr>)])"
proof -
  let ?g = "\<lparr>groupName = ''Robotics'', groupDescription = ''Robots'', isPrivate = False,
             members = Some [''u1'', ''u2'', ''u3''], groupAdmin = ''u1'',
             groupCreatedAt = 0, groupUpdatedAt = 0\<rparr>"
  have h1: "map_of [(''g1'', ?g)] ''g1'' = Some ?g" by simp
  have h2: "members ?g = Some [''u1'', ''u2'', ''u3'']" by simp
  have h3: "(None :: nat option) \<noteq> Some 0" by simp
  from leave_admin_or_absent [OF h1 h2 h3, of "example_user ''u1''" 10]
  have a: "leave (example_user ''u1'') ''g1'' 10 None [(''g1'', ?g)] =
      (\<lparr>status = 400, body = [(''message'', JStr ''Admin cannot leave the group'')]\<rparr>,
       [(''g1'', ?g)])"
    by (simp add: example_user_def)
  from leave_admin_or_absent [OF h1 h2 h3, of "example_user ''u4''" 10]
  have b: "leave (example_user ''u4'') ''g1'' 10 None [(''g1'', ?g)] =
      (\<lparr>status = 400, body = [(''message'', JStr ''Not a member of this group'')]\<rparr>,
       [(''g1'', ?g)])"
    by (simp add: example_user_def)
  from a b show ?thesis by (intro conjI)
qed

text \<open>
  The claim as stated fails for an admin who is no longer in the member list (the
  client's own leave path removes any caller from \<open>members\<close>): the membership check
  comes first, so the admin is told \<open>Not a member of this group\<close>.
\<close>

theorem leave_admin_not_member_counterexample:
  "leave (example_user ''u1'') ''g1'' 10 None
       [(''g1'', \<lparr>groupName = ''Robotics'', groupDescription = ''Robots'', isPrivate = False,
                  members = Some [''u2''], groupAdmin = ''u1'',
                  groupCreatedAt = 0, groupUpdatedAt = 0\<rparr>)] =
     (\<lparr>status = 400, body = [(''message'', JStr ''Not a member of this group'')]\<rparr>,
      [(''g1'', \<lparr>groupName = ''Robotics'', groupDescription = ''Robots'', isPrivate = False,
                 members = Some [''u2''], groupAdmin = ''u1'',
                 groupCreatedAt = 0, groupUpdatedAt = 0\<rparr>)])"
  by (simp add: leave_def example_user_def res_status_json_def message_def)

section \<open>Users: the profile update\<close>

lemma map_of_set_field: "map_of (set_field k v d) = (map_of d)(k \<mapsto> v)"
  by (induction d) auto

lemma map_of_set_fields_other:
  "k \<notin> fst ` set upd \<Longrightarrow> map_of (set_fields upd d) k = map_of d k"
  by (induction upd arbitrary: d) (auto simp: map_of_set_field)

lemma updateData_keys:
  "map fst (updateData b now) =
     [''name'', ''regNo'', ''department'', ''year'', ''photoURL'', ''updatedAt'']"
  by (simp add: updateData_def)

lemma map_of_updateData:
  "map_of (set_fields (updateData b now) d) k =
     (if k \<in> set profile_fields then Some (body_field b k)
      else if k = ''updatedAt'' then Some (JNum now)
      else map_of d k)"
  by (simp add: updateData_def profile_fields_def map_of_set_field)

lemma updateData_undefined:
  "list_ex (\<lambda>f. snd f = JUndefined) (updateData b now) =
     (\<not> list_all (\<lambda>k. body_field b k \<noteq> JUndefined) profile_fields)"
  by (auto simp: updateData_def profile_fields_def)

lemma map_of_set_fields_skip:
  assumes "k \<in> set profile_fields" and "body_field b k = JUndefined"
  shows "map_of (set_fields (filter (\<lambda>f. snd f \<noteq> JUndefined) (updateData b now)) d) k =
         map_of d k"
proof -
  have "k \<notin> fst ` set (filter (\<lambda>f. snd f \<noteq> JUndefined) (updateData b now))"
    using assms by (auto simp: updateData_def profile_fields_def)
  then show ?thesis by (rule map_of_set_fields_other)
qed

text \<open>
  C10 (as amended). The profile update validates nothing itself: whatever the body, the
  data it hands to the store's \<open>update\<close> names exactly the six fields \<open>name\<close>, \<open>regNo\<close>,
  \<open>department\<close>, \<open>year\<close>, \<open>photoURL\<close>, \<open>updatedAt\<close>, and it never answers 400. For an
  existing profile and an answering store: when the body carries all five fields they
  are written as given, with \<open>updatedAt\<close>, and every other stored field keeps its value.
  A field the body omits is \<open>undefined\<close> in the data and is never written over the stored
  value: the store refuses the update, the handler answers 500 and nothing is written;
  with \<open>ignoreUndefinedProperties\<close> on, the store skips the field, which keeps its value.
\<close>

theorem update_profile_frame:
  assumes "map_of users (uid u) = Some d"
  shows "map fst (updateData b now) =
           [''name'', ''regNo'', ''department'', ''year'', ''photoURL'', ''updatedAt''] \<and>
         status (fst (update_profile ign u b now fails users)) \<noteq> 400 \<and>
         (list_all (\<lambda>k. body_field b k \<noteq> JUndefined) profile_fields \<longrightarrow>
            fst (update_profile ign u b now None users) =
              \<lparr>status = 200, body = [(''message'', JStr ''Profile updated successfully'')]\<rparr> \<and>
            (\<exists>d'. map_of (snd (update_profile ign u b now None users)) (uid u) = Some d' \<and>
                  (\<forall>k. map_of d' k =
                     (if k \<in> set profile_fields then Some (body_field b k)
                      else if k = ''updatedAt'' then Some (JNum now)
                      else map_of d k)))) \<and>
         (\<not> list_all (\<lambda>k. body_field b k \<noteq> JUndefined) profile_fields \<longrightarrow>
            update_profile False u b now None users =
              (\<lparr>status = 500, body = [(''message'', JStr ''Failed to update profile'')]\<rparr>,
               users) \<and>
            (\<exists>d'. map_of (snd (update_profile True u b now None users)) (uid u) = Some d' \<and>
                  (\<forall>k. k \<in> set profile_fields \<and> body_field b k = JUndefined \<longrightarrow>
                     map_of d' k = map_of d k)))"
proof (intro conjI impI)
  show "map fst (updateData b now) =
      [''name'', ''regNo'', ''department'', ''year'', ''photoURL'', ''updatedAt'']"
    by (rule updateData_keys)
  show "status (fst (update_profile ign u b now fails users)) \<noteq> 400"
    by (simp add: update_profile_def res_status_json_def res_json_def split: option.splits)
next
  assume all: "list_all (\<lambda>k. body_field b k \<noteq> JUndefined) profile_fields"
  then have no: "\<not> list_ex (\<lambda>f. snd f = JUndefined) (updateData b now)"
    by (simp add: updateData_undefined)
  from all have same: "filter (\<lambda>f. snd f \<noteq> JUndefined) (updateData b now) = updateData b now"
    by (simp add: updateData_def profile_fields_def)
  have run: "update_profile ign u b now None users =
      (res_json (message ''Profile updated successfully''),
       update_doc (uid u) (\<lambda>_. set_fields (updateData b now) d) users)"
    using assms no same by (simp add: update_profile_def store_update_def)
  show "fst (update_profile ign u b now None users) =
      \<lparr>status = 200, body = [(''message'', JStr ''Profile updated successfully'')]\<rparr>"
    unfolding run by (simp add: res_json_def message_def)
  show "\<exists>d'. map_of (snd (update_profile ign u b now None users)) (uid u) = Some d' \<and>
      (\<forall>k. map_of d' k =
         (if k \<in> set profile_fields then Some (body_field b k)
          else if k = ''updatedAt'' then Some (JNum now)
          else map_of d k))"
    unfolding run using assms by (simp add: map_of_update_doc map_of_updateData)
next
  assume some: "\<not> list_all (\<lambda>k. body_field b k \<noteq> JUndefined) profile_fields"
  then have ex: "list_ex (\<lambda>f. snd f = JUndefined) (updateData b now)"
    by (simp add: updateData_undefined)
  show "update_profile False u b now None users =
      (\<lparr>status = 500, body = [(''message'', JStr ''Failed to update profile'')]\<rparr>, users)"
    using assms ex
    by (simp add: update_profile_def store_update_def res_status_json_def message_def)
  have run: "update_profile True u b now None users =
      (res_json (message ''Profile updated successfully''),
       update_doc (uid u)
         (\<lambda>_. set_fields (filter (\<lambda>f. snd f \<noteq> JUndefined) (updateData b now)) d) users)"
    using assms by (simp add: update_profile_def store_update_def)
  show "\<exists>d'. map_of (snd (update_profile True u b now None users)) (uid u) = Some d' \<and>
      (\<forall>k. k \<in> set profile_fields \<and> body_field b k = JUndefined \<longrightarrow>
         map_of d' k = map_of d k)"
    unfolding run using assms by (simp add: map_of_update_doc map_of_set_fields_skip)
qed

theorem update_profile_frame_witness:
  "map_of [(''u1'', [(''name'', JStr ''A''), (''year'', JStr ''3''),
                     (''email'', JStr ''x@ceg.edu'')])] ''u1'' =
     Some [(''name'', JStr ''A''), (''year'', JStr ''3''), (''email'', JStr ''x@ceg.edu'')] \<and>
   list_all
     (\<lambda>k. body_field [(''name'', JStr ''Asha''), (''regNo'', JStr ''''),
                        (''department'', JStr ''CSE''), (''year'', JStr ''4''),
                        (''photoURL'', JNull), (''isAdmin'', JBool True)] k \<noteq> JUndefined)
     profile_fields \<and>
   update_profile False (example_user ''u1'')
       [(''name'', JStr ''Asha''), (''regNo'', JStr ''''), (''department'', JStr ''CSE''),
        (''year'', JStr ''4''), (''photoURL'', JNull), (''isAdmin'', JBool True)] 50 None
       [(''u1'', [(''name'', JStr ''A''), (''year'', JStr ''3''),
                  (''email'', JStr ''x@ceg.edu'')])] =
     (\<lparr>status = 200, body = [(''message'', JStr ''Profile updated successfully'')]\<rparr>,
      [(''u1'', [(''name'', JStr ''Asha''), (''year'', JStr ''4''),
                 (''email'', JStr ''x@ceg.edu''), (''regNo'', JStr ''''),
                 (''department'', JStr ''CSE''), (''photoURL'', JNull),
                 (''updatedAt'', JNum 50)])]) \<and>
   \<not> list_all
     (\<lambda>k. body_field [(''name'', JStr ''Asha'')] k \<noteq> JUndefined) profile_fields \<and>
   update_profile False (example_user ''u1'') [(''name'', JStr ''Asha'')] 50 None
       [(''u1'', [(''name'', JStr ''A''), (''year'', JStr ''3''),
                  (''email'', JStr ''x@ceg.edu'')])] =
     (\<lparr>status = 500, body = [(''message'', JStr ''Failed to update profile'')]\<rparr>,
      [(''u1'', [(''name'', JStr ''A''), (''year'', JStr ''3''),
                 (''email'', JStr ''x@ceg.edu'')])])"
proof -
  let ?d = "[(''name'', JStr ''A''), (''year'', JStr ''3''), (''email'', JStr ''x@ceg.edu'')]"
  let ?b1 = "[(''name'', JStr ''Asha''), (''regNo'', JStr ''''), (''department'', JStr ''CSE''),
              (''year'', JStr ''4''), (''photoURL'', JNull), (''isAdmin'', JBool True)]"
  let ?b2 = "[(''name'', JStr ''Asha'')]"
  have h: "map_of [(''u1'', ?d)] (uid (example_user ''u1'')) = Some ?d"
    by (simp add: example_user_def)
  have h': "map_of [(''u1'', ?d)] ''u1'' = Some ?d" by simp
  have all: "list_all (\<lambda>k. body_field ?b1 k \<noteq> JUndefined) profile_fields"
    by (simp add: profile_fields_def body_field_def)
  have some: "\<not> list_all (\<lambda>k. body_field ?b2 k \<noteq> JUndefined) profile_fields"
    by (simp add: profile_fields_def body_field_def)
  have run1: "update_profile False (example_user ''u1'') ?b1 50 None [(''u1'', ?d)] =
      (\<lparr>status = 200, body = [(''message'', JStr ''Profile updated successfully'')]\<rparr>,
       [(''u1'', [(''name'', JStr ''Asha''), (''year'', JStr ''4''),
                  (''email'', JStr ''x@ceg.edu''), (''regNo'', JStr ''''),
                  (''department'', JStr ''CSE''), (''photoURL'', JNull),
                  (''updatedAt'', JNum 50)])])"
    using update_profile_frame [OF h, of ?b1 50 False None]
    by (simp add: update_profile_def store_update_def updateData_def body_field_def
        example_user_def res_json_def message_def)
  have run2: "update_profile False (example_user ''u1'') ?b2 50 None [(''u1'', ?d)] =
      (\<lparr>status = 500, body = [(''message'', JStr ''Failed to update profile'')]\<rparr>,
       [(''u1'', ?d)])"
    using update_profile_frame [OF h, of ?b2 50 False None] some by blast
  from h' all run1 some run2 show ?thesis by (intro conjI)
qed

text \<open>
  The claim as stated fails: with \<open>year\<close> omitted from the body, the stored \<open>year\<close> is
  not overwritten. The update is refused whole (not even \<open>name\<close> is written), and with
  \<open>ignoreUndefinedProperties\<close> on the stored \<open>year\<close> is kept.
\<close>

theorem update_profile_omitted_field_counterexample:
  "update_profile False (example_user ''u1'')
       [(''name'', JStr ''Asha''), (''regNo'', JStr ''2021''), (''department'', JStr ''CSE''),
        (''photoURL'', JStr ''p.png'')] 50 None
       [(''u1'', [(''name'', JStr ''A''), (''year'', JStr ''3'')])] =
     (\<lparr>status = 500, body = [(''message'', JStr ''Failed to update profile'')]\<rparr>,
      [(''u1'', [(''name'', JStr ''A''), (''year'', JStr ''3'')])]) \<and>
   snd (update_profile True (example_user ''u1'')
       [(''name'', JStr ''Asha''), (''regNo'', JStr ''2021''), (''department'', JStr ''CSE''),
        (''photoURL'', JStr ''p.png'')] 50 None
       [(''u1'', [(''name'', JStr ''A''), (''year'', JStr ''3'')])]) =
     [(''u1'', [(''name'', JStr ''Asha''), (''year'', JStr ''3''), (''regNo'', JStr ''2021''),
                (''department'', JStr ''CSE''), (''photoURL'', JStr ''p.png''),
                (''updatedAt'', JNum 50)])]"
  by (simp add: update_profile_def store_update_def updateData_def body_field_def
      example_user_def res_status_json_def message_def)

end
